theory Spec2Isabelle
  imports Main "HOL-Library.Word" "HOL-Library.Signed_Division"
begin

unbundle bit_operations_syntax

section \<open>Go values\<close>

text \<open>
  A Go call either returns or panics.  Every index out of range and every library
  call that panics on a malformed argument is a \<open>Panics\<close> branch of the model.
\<close>

datatype 'a go = Panics | Returns 'a

type_synonym byte = "8 word"
type_synonym bytes = "byte list"

text \<open>
  \<open>time.Time\<close> as an instant: nanoseconds since the Unix epoch.  Go keeps the
  seconds since January 1 of year 1 in an int64, 62135596800 more than the Unix
  seconds: \<open>go_time\<close> says that an instant is a value of \<open>time.Time\<close>.
\<close>

type_synonym Time = int

definition go_time :: "Time \<Rightarrow> bool" where
  "go_time t =
     (- (2 ^ 63) \<le> t div 1000000000 + 62135596800 \<and> t div 1000000000 + 62135596800 < 2 ^ 63)"

definition Before :: "Time \<Rightarrow> Time \<Rightarrow> bool" where
  "Before t u = (t < u)"

definition After :: "Time \<Rightarrow> Time \<Rightarrow> bool" where
  "After t u = (u < t)"

text \<open>
  \<open>Unix\<close> is \<open>Time.Unix()\<close>, the whole Unix seconds as an int64.  \<open>time_Unix s\<close> is
  \<open>time.Unix(s, 0)\<close>: it adds 62135596800 to \<open>s\<close> in int64 arithmetic, so it wraps
  for \<open>s\<close> above \<open>MaxInt64 - 62135596800\<close>.
\<close>

definition Unix :: "Time \<Rightarrow> 64 word" where
  "Unix t = word_of_int (t div 1000000000)"

definition time_Unix :: "64 word \<Rightarrow> Time" where
  "time_Unix s = (sint (s + 62135596800) - 62135596800) * 1000000000"

section \<open>The certificate model (cert/cert.go)\<close>

text \<open>The \<open>Curve\<close> enum of the wire format is an int32: 0 is Curve25519, 1 is P-256.\<close>

type_synonym Curve = int

definition Curve_CURVE25519 :: Curve where
  "Curve_CURVE25519 = 0"

definition Curve_P256 :: Curve where
  "Curve_P256 = 1"

definition publicKeyLen :: nat where
  "publicKeyLen = 32"

text \<open>\<open>net.IPNet\<close>: an address and a mask, both byte slices.\<close>

record IPNet =
  IP :: bytes
  Mask :: bytes

record NebulaCertificateDetails =
  Name :: string
  Ips :: "IPNet list"
  Subnets :: "IPNet list"
  Groups :: "string list"
  NotBefore :: Time
  NotAfter :: Time
  PublicKey :: bytes
  IsCA :: bool
  Issuer :: string
  InvertedGroups :: "string set"
  Curve :: Curve

text \<open>
  The two atomic pointers \<open>sha256sum\<close> and \<open>signatureVerified\<close> are the caches of
  \<open>VerifyWithCache\<close>; \<open>None\<close> is the nil pointer.
\<close>

record NebulaCertificate =
  Details :: NebulaCertificateDetails
  Pkcs11Backed :: bool
  Signature :: bytes
  sha256sum :: "string option"
  signatureVerified :: "bytes option"

text \<open>
  The protobuf messages \<open>RawNebulaCertificateDetails\<close> and \<open>RawNebulaCertificate\<close>,
  with the fields cert.go reads and writes.  \<open>Raw_Details\<close> is a pointer.
\<close>

record RawNebulaCertificateDetails =
  Raw_Name :: string
  Raw_Ips :: "32 word list"
  Raw_Subnets :: "32 word list"
  Raw_Groups :: "string list"
  Raw_NotBefore :: "64 word"
  Raw_NotAfter :: "64 word"
  Raw_PublicKey :: bytes
  Raw_IsCA :: bool
  Raw_Issuer :: bytes
  Raw_Curve :: Curve

record RawNebulaCertificate =
  Raw_Details :: "RawNebulaCertificateDetails option"
  Raw_Signature :: bytes

datatype cert_error =
    ErrBlockListed
  | ErrRootNotFound
  | ErrRootExpired
  | ErrExpired
  | ErrSignatureMismatch
  | ErrExpiresAfterSigner
  | ErrValidBeforeSigner
  | ErrGroupNotPresent string
  | ErrIpOutside IPNet
  | ErrSubnetOutside IPNet
  | ErrCurveMismatch
  | ErrInvalidCurve Curve
  | ErrProto string
  | ErrEcdsa string
  | ErrNilByteArray
  | ErrDetailsNil
  | ErrOddIps
  | ErrOddSubnets
  | ErrPublicKeyTooShort nat

text \<open>
  The libraries cert.go calls (protobuf, SHA-256, Ed25519, ECDSA over P-256) are not
  part of the repository: they are parameters of the model.  \<open>p256_SignASN1\<close> stands
  for lines 160-173 of \<open>Sign\<close> after hashing, \<open>p256_VerifyASN1\<close> for
  \<open>elliptic.Unmarshal\<close> followed by \<open>ecdsa.VerifyASN1\<close>.
\<close>

record prims =
  proto_Marshal_Details :: "RawNebulaCertificateDetails \<Rightarrow> string + bytes"
  proto_Marshal :: "RawNebulaCertificate \<Rightarrow> string + bytes"
  proto_Unmarshal :: "bytes \<Rightarrow> string + RawNebulaCertificate"
  sha256_Sum256 :: "bytes \<Rightarrow> bytes"
  ed25519_sign :: "bytes \<Rightarrow> bytes \<Rightarrow> bytes"
  ed25519_verify :: "bytes \<Rightarrow> bytes \<Rightarrow> bytes \<Rightarrow> bool"
  p256_SignASN1 :: "bytes \<Rightarrow> bytes \<Rightarrow> (string + bytes) go"
  p256_VerifyASN1 :: "bytes \<Rightarrow> bytes \<Rightarrow> bytes \<Rightarrow> bool go"

text \<open>
  Go's crypto/ed25519: \<open>Sign\<close> panics if the private key is not 64 bytes long,
  \<open>Verify\<close> panics if the public key is not 32 bytes long.
\<close>

definition ed25519_Sign :: "prims \<Rightarrow> bytes \<Rightarrow> bytes \<Rightarrow> bytes go" where
  "ed25519_Sign P privateKey message =
     (if length privateKey \<noteq> 64 then Panics
      else Returns (ed25519_sign P privateKey message))"

definition ed25519_Verify :: "prims \<Rightarrow> bytes \<Rightarrow> bytes \<Rightarrow> bytes \<Rightarrow> bool go" where
  "ed25519_Verify P publicKey message sig =
     (if length publicKey \<noteq> 32 then Panics
      else Returns (ed25519_verify P publicKey message sig))"

subsection \<open>Hexadecimal strings (encoding/hex)\<close>

definition hextable :: string where
  "hextable = ''0123456789abcdef''"

definition hex_EncodeToString :: "bytes \<Rightarrow> string" where
  "hex_EncodeToString src =
     concat (map (\<lambda>v. [hextable ! unat (drop_bit 4 v), hextable ! unat (v AND 15)]) src)"

definition fromHexChar :: "char \<Rightarrow> byte option" where
  "fromHexChar c =
     (let n = of_char c :: nat in
      if 48 \<le> n \<and> n \<le> 57 then Some (of_nat (n - 48))
      else if 97 \<le> n \<and> n \<le> 102 then Some (of_nat (n - 97 + 10))
      else if 65 \<le> n \<and> n \<le> 70 then Some (of_nat (n - 65 + 10))
      else None)"

text \<open>
  \<open>hex.DecodeString\<close> returns the bytes decoded before the first error, and whether
  there was an error (a character that is no hex digit, or an odd length).
\<close>

fun hex_DecodeString :: "string \<Rightarrow> bytes \<times> bool" where
  "hex_DecodeString [] = ([], False)"
| "hex_DecodeString [p] = ([], True)"
| "hex_DecodeString (p # q # rest) =
     (case fromHexChar p of
        None \<Rightarrow> ([], True)
      | Some a \<Rightarrow>
          (case fromHexChar q of
             None \<Rightarrow> ([], True)
           | Some b \<Rightarrow>
               (let (out, err) = hex_DecodeString rest
                in ((push_bit 4 a OR b) # out, err))))"

subsection \<open>Addresses\<close>

fun isZeros :: "bytes \<Rightarrow> bool" where
  "isZeros [] = True"
| "isZeros (b # bs) = (if b \<noteq> 0 then False else isZeros bs)"

definition maskTo4 :: "bytes \<Rightarrow> bytes option" where
  "maskTo4 ip =
     (if length ip = 4 then Some ip
      else if length ip = 16 \<and> isZeros (take 10 ip) \<and> ip ! 10 = 0xff \<and> ip ! 11 = 0xff
      then Some (drop 12 ip)
      else None)"

text \<open>
  The loop of \<open>maskContains\<close> runs \<open>i\<close> up to \<open>len(caMask)\<close>, the length of the
  mask before \<open>maskTo4\<close>, and indexes the two 4-byte slices \<open>caM\<close> and \<open>cM\<close>.
\<close>

function maskContains_loop :: "bytes \<Rightarrow> bytes \<Rightarrow> nat \<Rightarrow> nat \<Rightarrow> bool go" where
  "maskContains_loop caM cM n i =
     (if i < n then
        (if i < length caM \<and> i < length cM then
           (if caM ! i > cM ! i then Returns False
            else maskContains_loop caM cM n (Suc i))
         else Panics)
      else Returns True)"
  by pat_completeness auto
termination
  by (relation "measure (\<lambda>(caM, cM, n, i). n - i)") auto

declare maskContains_loop.simps [simp del]

definition maskContains :: "bytes \<Rightarrow> bytes \<Rightarrow> bool go" where
  "maskContains caMask certMask =
     (case (maskTo4 caMask, maskTo4 certMask) of
        (Some caM, Some cM) \<Rightarrow> maskContains_loop caM cM (length caMask) 0
      | _ \<Rightarrow> Returns False)"

text \<open>Go's \<open>net.IP.To4\<close>, \<open>networkNumberAndMask\<close> and \<open>net.IPNet.Contains\<close>.\<close>

definition To4 :: "bytes \<Rightarrow> bytes option" where
  "To4 ip =
     (if length ip = 4 then Some ip
      else if length ip = 16 \<and> isZeros (take 10 ip) \<and> ip ! 10 = 0xff \<and> ip ! 11 = 0xff
      then Some (drop 12 ip)
      else None)"

definition networkNumberAndMask :: "IPNet \<Rightarrow> bytes \<times> bytes" where
  "networkNumberAndMask n =
     (case (case To4 (IP n) of
              Some ip \<Rightarrow> Some ip
            | None \<Rightarrow> if length (IP n) \<noteq> 16 then None else Some (IP n)) of
        None \<Rightarrow> ([], [])
      | Some ip \<Rightarrow>
          (if length (Mask n) = 4 then
             (if length ip \<noteq> 4 then ([], []) else (ip, Mask n))
           else if length (Mask n) = 16 then
             (if length ip = 4 then (ip, drop 12 (Mask n)) else (ip, Mask n))
           else ([], [])))"

definition Contains :: "IPNet \<Rightarrow> bytes \<Rightarrow> bool" where
  "Contains n ip =
     (let (nn, m) = networkNumberAndMask n;
          ip' = (case To4 ip of Some x \<Rightarrow> x | None \<Rightarrow> ip)
      in if length ip' \<noteq> length nn then False
         else list_all (\<lambda>i. (nn ! i) AND (m ! i) = (ip' ! i) AND (m ! i)) [0..<length ip'])"

fun netMatch :: "IPNet \<Rightarrow> IPNet list \<Rightarrow> bool go" where
  "netMatch certIp [] = Returns False"
| "netMatch certIp (n # rootIps) =
     (if Contains n (IP certIp) then
        (case maskContains (Mask n) (Mask certIp) of
           Panics \<Rightarrow> Panics
         | Returns True \<Rightarrow> Returns True
         | Returns False \<Rightarrow> netMatch certIp rootIps)
      else netMatch certIp rootIps)"

text \<open>\<open>binary.BigEndian.Uint32\<close> reads \<open>b[0..3]\<close> and panics on a shorter slice.\<close>

definition BigEndian_Uint32 :: "bytes \<Rightarrow> 32 word go" where
  "BigEndian_Uint32 b =
     (if length b < 4 then Panics
      else Returns (push_bit 24 (ucast (b ! 0)) OR push_bit 16 (ucast (b ! 1))
                    OR push_bit 8 (ucast (b ! 2)) OR ucast (b ! 3)))"

definition ip2int :: "bytes \<Rightarrow> 32 word go" where
  "ip2int ip =
     (if length ip = 16 then BigEndian_Uint32 (drop 12 ip) else BigEndian_Uint32 ip)"

definition int2ip :: "32 word \<Rightarrow> bytes" where
  "int2ip nn = [ucast (drop_bit 24 nn), ucast (drop_bit 16 nn), ucast (drop_bit 8 nn), ucast nn]"

subsection \<open>Marshalling\<close>

text \<open>
  The loops of \<open>getRawDetails\<close> over \<open>Ips\<close> and \<open>Subnets\<close>: each net appends
  \<open>ip2int\<close> of its address and of its mask.
\<close>

fun raw_nets :: "IPNet list \<Rightarrow> 32 word list go" where
  "raw_nets [] = Returns []"
| "raw_nets (ipNet # rest) =
     (case ip2int (IP ipNet) of
        Panics \<Rightarrow> Panics
      | Returns a \<Rightarrow>
          (case ip2int (Mask ipNet) of
             Panics \<Rightarrow> Panics
           | Returns m \<Rightarrow>
               (case raw_nets rest of
                  Panics \<Rightarrow> Panics
                | Returns r \<Rightarrow> Returns (a # m # r))))"

definition getRawDetails :: "NebulaCertificate \<Rightarrow> RawNebulaCertificateDetails go" where
  "getRawDetails nc =
     (case raw_nets (Ips (Details nc)) of
        Panics \<Rightarrow> Panics
      | Returns ips \<Rightarrow>
          (case raw_nets (Subnets (Details nc)) of
             Panics \<Rightarrow> Panics
           | Returns subnets \<Rightarrow>
               Returns \<lparr>Raw_Name = Name (Details nc),
                        Raw_Ips = ips,
                        Raw_Subnets = subnets,
                        Raw_Groups = Groups (Details nc),
                        Raw_NotBefore = Unix (NotBefore (Details nc)),
                        Raw_NotAfter = Unix (NotAfter (Details nc)),
                        Raw_PublicKey = PublicKey (Details nc),
                        Raw_IsCA = IsCA (Details nc),
                        Raw_Issuer = fst (hex_DecodeString (Issuer (Details nc))),
                        Raw_Curve = Curve (Details nc)\<rparr>))"

definition Marshal :: "prims \<Rightarrow> NebulaCertificate \<Rightarrow> (cert_error + bytes) go" where
  "Marshal P nc =
     (case getRawDetails nc of
        Panics \<Rightarrow> Panics
      | Returns rd \<Rightarrow>
          (case proto_Marshal P \<lparr>Raw_Details = Some rd, Raw_Signature = Signature nc\<rparr> of
             Inl e \<Rightarrow> Returns (Inl (ErrProto e))
           | Inr b \<Rightarrow> Returns (Inr b)))"

text \<open>The pairs of \<open>UnmarshalNebulaCertificate\<close>: even positions are addresses, odd ones masks.\<close>

fun unraw_nets :: "32 word list \<Rightarrow> IPNet list" where
  "unraw_nets (a # m # rest) = \<lparr>IP = int2ip a, Mask = int2ip m\<rparr> # unraw_nets rest"
| "unraw_nets _ = []"

definition UnmarshalNebulaCertificate :: "prims \<Rightarrow> bytes \<Rightarrow> cert_error + NebulaCertificate" where
  "UnmarshalNebulaCertificate P b =
     (if length b = 0 then Inl ErrNilByteArray
      else case proto_Unmarshal P b of
        Inl e \<Rightarrow> Inl (ErrProto e)
      | Inr rc \<Rightarrow>
          (case Raw_Details rc of
             None \<Rightarrow> Inl ErrDetailsNil
           | Some rd \<Rightarrow>
               if length (Raw_Ips rd) mod 2 \<noteq> 0 then Inl ErrOddIps
               else if length (Raw_Subnets rd) mod 2 \<noteq> 0 then Inl ErrOddSubnets
               else if length (Raw_PublicKey rd) < publicKeyLen
                 then Inl (ErrPublicKeyTooShort (length (Raw_PublicKey rd)))
               else Inr \<lparr>Details =
                           \<lparr>Name = Raw_Name rd,
                            Ips = unraw_nets (Raw_Ips rd),
                            Subnets = unraw_nets (Raw_Subnets rd),
                            Groups = Raw_Groups rd,
                            NotBefore = time_Unix (Raw_NotBefore rd),
                            NotAfter = time_Unix (Raw_NotAfter rd),
                            PublicKey = Raw_PublicKey rd,
                            IsCA = Raw_IsCA rd,
                            Issuer = hex_EncodeToString (Raw_Issuer rd),
                            InvertedGroups = set (Raw_Groups rd),
                            Curve = Raw_Curve rd\<rparr>,
                         Pkcs11Backed = False,
                         Signature = Raw_Signature rc,
                         sha256sum = None,
                         signatureVerified = None\<rparr>))"

subsection \<open>Signing and checking signatures\<close>

definition Sign :: "prims \<Rightarrow> NebulaCertificate \<Rightarrow> Curve \<Rightarrow> bytes
    \<Rightarrow> cert_error option go \<times> NebulaCertificate" where
  "Sign P nc curve key =
     (if curve \<noteq> Curve (Details nc) then (Returns (Some ErrCurveMismatch), nc)
      else case getRawDetails nc of
        Panics \<Rightarrow> (Panics, nc)
      | Returns rd \<Rightarrow>
          (case proto_Marshal_Details P rd of
             Inl e \<Rightarrow> (Returns (Some (ErrProto e)), nc)
           | Inr b \<Rightarrow>
               if curve = Curve_CURVE25519 then
                 (case ed25519_Sign P key b of
                    Panics \<Rightarrow> (Panics, nc)
                  | Returns sig \<Rightarrow> (Returns None, nc\<lparr>Signature := sig\<rparr>))
               else if curve = Curve_P256 then
                 (case p256_SignASN1 P key (sha256_Sum256 P b) of
                    Panics \<Rightarrow> (Panics, nc)
                  | Returns (Inl e) \<Rightarrow> (Returns (Some (ErrEcdsa e)), nc)
                  | Returns (Inr sig) \<Rightarrow> (Returns None, nc\<lparr>Signature := sig\<rparr>))
               else (Returns (Some (ErrInvalidCurve (Curve (Details nc)))), nc)))"

definition CheckSignature :: "prims \<Rightarrow> NebulaCertificate \<Rightarrow> bytes \<Rightarrow> bool go" where
  "CheckSignature P nc key =
     (case getRawDetails nc of
        Panics \<Rightarrow> Panics
      | Returns rd \<Rightarrow>
          (case proto_Marshal_Details P rd of
             Inl e \<Rightarrow> Returns False
           | Inr b \<Rightarrow>
               if Curve (Details nc) = Curve_CURVE25519 then
                 ed25519_Verify P key b (Signature nc)
               else if Curve (Details nc) = Curve_P256 then
                 p256_VerifyASN1 P key (sha256_Sum256 P b) (Signature nc)
               else Returns False))"

definition checkSignatureWithCache :: "prims \<Rightarrow> NebulaCertificate \<Rightarrow> bytes \<Rightarrow> bool
    \<Rightarrow> bool go \<times> NebulaCertificate" where
  "checkSignatureWithCache P nc key useCache =
     (if \<not> useCache then (CheckSignature P nc key, nc)
      else case signatureVerified nc of
        Some v \<Rightarrow> (Returns (v = key), nc)
      | None \<Rightarrow>
          (case CheckSignature P nc key of
             Panics \<Rightarrow> (Panics, nc)
           | Returns True \<Rightarrow> (Returns True, nc\<lparr>signatureVerified := Some key\<rparr>)
           | Returns False \<Rightarrow> (Returns False, nc)))"

definition Expired :: "NebulaCertificate \<Rightarrow> Time \<Rightarrow> bool" where
  "Expired nc t = (After (NotBefore (Details nc)) t \<or> Before (NotAfter (Details nc)) t)"

definition Sha256Sum :: "prims \<Rightarrow> NebulaCertificate \<Rightarrow> (cert_error + string) go" where
  "Sha256Sum P nc =
     (case Marshal P nc of
        Panics \<Rightarrow> Panics
      | Returns (Inl e) \<Rightarrow> Returns (Inl e)
      | Returns (Inr b) \<Rightarrow> Returns (Inr (hex_EncodeToString (sha256_Sum256 P b))))"

definition sha256SumWithCache :: "prims \<Rightarrow> NebulaCertificate \<Rightarrow> bool
    \<Rightarrow> (cert_error + string) go \<times> NebulaCertificate" where
  "sha256SumWithCache P nc useCache =
     (if \<not> useCache then (Sha256Sum P nc, nc)
      else case sha256sum nc of
        Some s \<Rightarrow> (Returns (Inr s), nc)
      | None \<Rightarrow>
          (case Sha256Sum P nc of
             Panics \<Rightarrow> (Panics, nc)
           | Returns (Inl e) \<Rightarrow> (Returns (Inl e), nc)
           | Returns (Inr s) \<Rightarrow> (Returns (Inr s), nc\<lparr>sha256sum := Some s\<rparr>)))"

definition ResetCache :: "NebulaCertificate \<Rightarrow> NebulaCertificate" where
  "ResetCache nc = nc\<lparr>sha256sum := None, signatureVerified := None\<rparr>"

subsection \<open>The CA pool\<close>

text \<open>
  Modelled from the spec: the CA pool (its file is not among the sources).  It is a set
  of CA certificates indexed by their issuer fingerprint, the hex SHA-256 of the CA's
  marshalled form, plus a blocklist of fingerprint strings.  \<open>fingerprint_indexed\<close> is
  the indexing: every CA is filed under its own fingerprint.
\<close>

record CAPool =
  CAs :: "string \<rightharpoonup> NebulaCertificate"
  certBlocklist :: "string set"

definition fingerprint_indexed :: "prims \<Rightarrow> CAPool \<Rightarrow> bool" where
  "fingerprint_indexed P ncp = (\<forall>k s. CAs ncp k = Some s \<longrightarrow> Sha256Sum P s = Returns (Inr k))"

text \<open>
  Modelled from the spec: \<open>GetCAForCert\<close> resolves the signer by the issuer string;
  "no issuer set" and "unknown issuer" both are \<open>RootNotFound\<close>.
\<close>

definition GetCAForCert :: "CAPool \<Rightarrow> NebulaCertificate \<Rightarrow> cert_error + NebulaCertificate" where
  "GetCAForCert ncp c =
     (if Issuer (Details c) = [] then Inl ErrRootNotFound
      else case CAs ncp (Issuer (Details c)) of
        None \<Rightarrow> Inl ErrRootNotFound
      | Some signer \<Rightarrow> Inr signer)"

text \<open>
  Modelled from the spec: \<open>isBlocklistedWithCache\<close> is the blocklist check by
  fingerprint, the fingerprint taken from \<open>sha256SumWithCache\<close>.  The spec does not say
  what a fingerprint that cannot be computed means; here it counts as blocklisted.
\<close>

definition isBlocklistedWithCache :: "prims \<Rightarrow> CAPool \<Rightarrow> NebulaCertificate \<Rightarrow> bool
    \<Rightarrow> bool go \<times> NebulaCertificate" where
  "isBlocklistedWithCache P ncp c useCache =
     (case sha256SumWithCache P c useCache of
        (Panics, c') \<Rightarrow> (Panics, c')
      | (Returns (Inl e), c') \<Rightarrow> (Returns True, c')
      | (Returns (Inr h), c') \<Rightarrow> (Returns (h \<in> certBlocklist ncp), c'))"

subsection \<open>Verification\<close>

fun check_groups :: "string set \<Rightarrow> string list \<Rightarrow> cert_error option" where
  "check_groups allowed [] = None"
| "check_groups allowed (g # gs) =
     (if g \<notin> allowed then Some (ErrGroupNotPresent g) else check_groups allowed gs)"

fun check_nets :: "(IPNet \<Rightarrow> cert_error) \<Rightarrow> IPNet list \<Rightarrow> IPNet list \<Rightarrow> cert_error option go" where
  "check_nets err rootIps [] = Returns None"
| "check_nets err rootIps (ip # ips) =
     (case netMatch ip rootIps of
        Panics \<Rightarrow> Panics
      | Returns False \<Rightarrow> Returns (Some (err ip))
      | Returns True \<Rightarrow> check_nets err rootIps ips)"

definition CheckRootConstrains :: "NebulaCertificate \<Rightarrow> NebulaCertificate \<Rightarrow> cert_error option go" where
  "CheckRootConstrains nc signer =
     (if Before (NotAfter (Details signer)) (NotAfter (Details nc))
        then Returns (Some ErrExpiresAfterSigner)
      else if After (NotBefore (Details signer)) (NotBefore (Details nc))
        then Returns (Some ErrValidBeforeSigner)
      else case (if InvertedGroups (Details signer) \<noteq> {}
                 then check_groups (InvertedGroups (Details signer)) (Groups (Details nc))
                 else None) of
        Some e \<Rightarrow> Returns (Some e)
      | None \<Rightarrow>
          (case (if Ips (Details signer) \<noteq> []
                 then check_nets ErrIpOutside (Ips (Details signer)) (Ips (Details nc))
                 else Returns None) of
             Panics \<Rightarrow> Panics
           | Returns (Some e) \<Rightarrow> Returns (Some e)
           | Returns None \<Rightarrow>
               (if Subnets (Details signer) \<noteq> []
                then check_nets ErrSubnetOutside (Subnets (Details signer)) (Subnets (Details nc))
                else Returns None)))"

definition verify :: "prims \<Rightarrow> NebulaCertificate \<Rightarrow> Time \<Rightarrow> CAPool \<Rightarrow> bool
    \<Rightarrow> (bool \<times> cert_error option) go \<times> NebulaCertificate" where
  "verify P nc t ncp useCache =
     (case isBlocklistedWithCache P ncp nc useCache of
        (Panics, nc1) \<Rightarrow> (Panics, nc1)
      | (Returns True, nc1) \<Rightarrow> (Returns (False, Some ErrBlockListed), nc1)
      | (Returns False, nc1) \<Rightarrow>
          (case GetCAForCert ncp nc1 of
             Inl e \<Rightarrow> (Returns (False, Some e), nc1)
           | Inr signer \<Rightarrow>
               if Expired signer t then (Returns (False, Some ErrRootExpired), nc1)
               else if Expired nc1 t then (Returns (False, Some ErrExpired), nc1)
               else
                 (case checkSignatureWithCache P nc1 (PublicKey (Details signer)) useCache of
                    (Panics, nc2) \<Rightarrow> (Panics, nc2)
                  | (Returns False, nc2) \<Rightarrow> (Returns (False, Some ErrSignatureMismatch), nc2)
                  | (Returns True, nc2) \<Rightarrow>
                      (case CheckRootConstrains nc2 signer of
                         Panics \<Rightarrow> (Panics, nc2)
                       | Returns (Some e) \<Rightarrow> (Returns (False, Some e), nc2)
                       | Returns None \<Rightarrow> (Returns (True, None), nc2)))))"

definition Verify :: "prims \<Rightarrow> NebulaCertificate \<Rightarrow> Time \<Rightarrow> CAPool
    \<Rightarrow> (bool \<times> cert_error option) go \<times> NebulaCertificate" where
  "Verify P nc t ncp = verify P nc t ncp False"

definition VerifyWithCache :: "prims \<Rightarrow> NebulaCertificate \<Rightarrow> Time \<Rightarrow> CAPool
    \<Rightarrow> (bool \<times> cert_error option) go \<times> NebulaCertificate" where
  "VerifyWithCache P nc t ncp = verify P nc t ncp True"

subsection \<open>Copy\<close>

text \<open>
  The composite literal of \<open>Copy\<close> names every field of \<open>Details\<close> but \<open>Curve\<close>, which
  keeps Go's zero value 0; \<open>Pkcs11Backed\<close> and the two caches keep their zero values too.
\<close>

definition Copy :: "NebulaCertificate \<Rightarrow> NebulaCertificate" where
  "Copy nc =
     \<lparr>Details =
        \<lparr>Name = Name (Details nc),
         Ips = map (\<lambda>p. \<lparr>IP = IP p, Mask = Mask p\<rparr>) (Ips (Details nc)),
         Subnets = map (\<lambda>p. \<lparr>IP = IP p, Mask = Mask p\<rparr>) (Subnets (Details nc)),
         Groups = Groups (Details nc),
         NotBefore = NotBefore (Details nc),
         NotAfter = NotAfter (Details nc),
         PublicKey = PublicKey (Details nc),
         IsCA = IsCA (Details nc),
         Issuer = Issuer (Details nc),
         InvertedGroups = InvertedGroups (Details nc),
         Curve = 0\<rparr>,
      Pkcs11Backed = False,
      Signature = Signature nc,
      sha256sum = None,
      signatureVerified = None\<rparr>"

subsection \<open>Certificates that survive the wire\<close>

text \<open>
  What the wire format keeps of a certificate: addresses and masks of 4 bytes, a public
  key of at least 32 bytes, an issuer in the lower-case hexadecimal form
  \<open>hex.EncodeToString\<close> writes, and timestamps of whole seconds.
\<close>

definition lower_hex :: "string \<Rightarrow> bool" where
  "lower_hex s = (even (length s) \<and> set s \<subseteq> set hextable)"

definition roundtrip_valid :: "NebulaCertificate \<Rightarrow> bool" where
  "roundtrip_valid c =
     ((\<forall>n\<in>set (Ips (Details c)) \<union> set (Subnets (Details c)). length (IP n) = 4 \<and> length (Mask n) = 4)
      \<and> publicKeyLen \<le> length (PublicKey (Details c))
      \<and> lower_hex (Issuer (Details c))
      \<and> go_time (NotBefore (Details c)) \<and> NotBefore (Details c) mod 1000000000 = 0
      \<and> go_time (NotAfter (Details c)) \<and> NotAfter (Details c) mod 1000000000 = 0)"

subsection \<open>Cache states\<close>

text \<open>
  The fingerprint is the identity of a CA: among the CAs of the pools in use, two with
  the same fingerprint have the same public key (\<open>fingerprints_identify_keys\<close>).
  \<open>cache_reachable\<close> are the cache states of a certificate \<open>c\<close> that is never
  mutated: the empty caches, and what any call of \<open>Verify\<close> or \<open>VerifyWithCache\<close>,
  at any time and with any of the pools, leaves behind.  \<open>cache_ok\<close> holds of each of
  them: a cached fingerprint is the certificate's, and a cached key passed
  \<open>CheckSignature\<close>.
\<close>

definition fingerprints_identify_keys :: "prims \<Rightarrow> CAPool set \<Rightarrow> bool" where
  "fingerprints_identify_keys P pools =
     (\<forall>p\<in>pools. \<forall>q\<in>pools. \<forall>k l a b.
        CAs p k = Some a \<and> CAs q l = Some b \<and> Sha256Sum P a = Sha256Sum P b
        \<longrightarrow> PublicKey (Details a) = PublicKey (Details b))"

definition cache_ok :: "prims \<Rightarrow> NebulaCertificate \<Rightarrow> bool" where
  "cache_ok P nc =
     ((case sha256sum nc of None \<Rightarrow> True | Some h \<Rightarrow> Sha256Sum P nc = Returns (Inr h))
      \<and> (case signatureVerified nc of None \<Rightarrow> True | Some k \<Rightarrow> CheckSignature P nc k = Returns True))"

inductive cache_reachable :: "prims \<Rightarrow> CAPool set \<Rightarrow> NebulaCertificate \<Rightarrow> NebulaCertificate \<Rightarrow> bool"
  for P :: prims and pools :: "CAPool set" and c :: NebulaCertificate where
    fresh: "cache_reachable P pools c (ResetCache c)"
  | call: "cache_reachable P pools c nc \<Longrightarrow> ncp \<in> pools
           \<Longrightarrow> cache_reachable P pools c (snd (verify P nc t ncp useCache))"

subsection \<open>Containment of nets, in the spec's words\<close>

text \<open>
  A leaf net (address \<open>a\<close>, mask \<open>m\<close>) is contained in a signer net (address \<open>A\<close>,
  mask \<open>M\<close>), both as the 32-bit words of the certificate format, when the address is
  covered, that is \<open>a\<close> lies in the network \<open>A/M\<close>, and the mask is at least as wide,
  that is \<open>m\<close> has every bit of \<open>M\<close>.
\<close>

definition spec_contained :: "32 word \<Rightarrow> 32 word \<Rightarrow> 32 word \<Rightarrow> 32 word \<Rightarrow> bool" where
  "spec_contained A M a m = ((a AND M) = (A AND M) \<and> (m AND M) = M)"

section \<open>The handshake manager (handshake_manager.go)\<close>

type_synonym VpnIp = "32 word"

record udp_Addr =
  addr_IP :: bytes
  addr_Port :: "16 word"

text \<open>
  Modelled from the spec: the remote list of a HostInfo (its file is not among the
  sources).  \<open>addrs\<close> is the ordered, deduplicated list of endpoints that \<open>ForEach\<close>
  visits and \<open>Len\<close> counts, already sorted by the preferred ranges; \<open>relays\<close> are the
  relay peers.
\<close>

record RemoteList =
  addrs :: "udp_Addr list"
  relays :: "VpnIp list"

datatype relay_state = Requested | Established | UnknownState

record Relay =
  State :: relay_state
  LocalIndex :: "32 word"

text \<open>
  The fields of HostInfo the handshake manager reads and writes.  \<open>HandshakePacket\<close> is
  a map from stage to bytes; a missing stage reads as the nil slice, which is the empty
  list here.  \<open>remotes\<close>, \<open>remote\<close> and \<open>ConnectionState\<close> are pointers.
\<close>

record HostInfo =
  vpnIp :: VpnIp
  localIndexId :: "32 word"
  remoteIndexId :: "32 word"
  HandshakePacket :: "8 word \<Rightarrow> bytes"
  HandshakeCounter :: "64 word"
  HandshakeReady :: bool
  HandshakeComplete :: bool
  lastHandshakeTime :: "64 word"
  packetStore :: "bytes list"
  remotes :: "RemoteList option"
  remote :: "udp_Addr option"
  relayForByIp :: "VpnIp \<rightharpoonup> Relay"
  ConnectionState :: "nat option"

text \<open>
  Modelled from the spec: the host map (its file is not among the sources), three
  indices from virtual IP, local index and remote index to HostInfo, and the index of
  relays by local relay index.  A HostInfo pointer is an address of the heap; the maps
  hold no nil pointer.
\<close>

record HostMap =
  Hosts :: "VpnIp \<rightharpoonup> nat"
  Indexes :: "32 word \<rightharpoonup> nat"
  RemoteIndexes :: "32 word \<rightharpoonup> nat"
  Relays :: "32 word \<rightharpoonup> nat"

record NebulaControl =
  Type :: nat
  InitiatorRelayIndex :: "32 word"
  RelayFromIp :: "32 word"
  RelayToIp :: "32 word"

definition NebulaControl_CreateRelayRequest :: nat where
  "NebulaControl_CreateRelayRequest = 1"

text \<open>What a call sends or asks of its collaborators, in order.\<close>

datatype action =
    MessageTx byte
  | WriteTo bytes udp_Addr
  | QueryServer VpnIp
  | Handshake VpnIp
  | SendVia nat Relay bytes
  | SendMessageToVpnIp VpnIp bytes

text \<open>
  The manager's configuration and its collaborators.  \<open>QueryCache\<close> is the lighthouse's
  cache, \<open>new_relay_index\<close> the random index \<open>AddRelay\<close> draws (\<open>None\<close>: no free index
  found).  \<open>time.Duration\<close> and \<open>int\<close> are 64-bit signed integers.
\<close>

record hs_env =
  tryInterval :: "64 word"
  retries :: "64 word"
  useRelays :: bool
  myVpnIp :: VpnIp
  QueryCache :: "VpnIp \<Rightarrow> RemoteList"
  proto_Marshal_Control :: "NebulaControl \<Rightarrow> string + bytes"
  new_relay_index :: "HostMap \<Rightarrow> 32 word option"

text \<open>
  The state a call works on: the heap of HostInfo objects, both host maps, the timer
  wheel as the list of the entries \<open>Add\<close> was given (id and delay), what was sent, and
  the timed-out counter.
\<close>

record hm_state =
  heap :: "nat \<Rightarrow> HostInfo"
  pendingHostMap :: HostMap
  mainHostMap :: HostMap
  OutboundHandshakeTimer :: "(VpnIp \<times> 64 word) list"
  sent :: "action list"
  metricTimedOut :: nat

datatype hs_error =
    ErrExistingHostInfo
  | ErrAlreadySeen
  | ErrLocalIndexCollision
  | ErrExistingHandshake

text \<open>
  Modelled from the spec: \<open>DeleteHostInfo\<close> removes a HostInfo from all three indices
  and is idempotent; \<open>addHostInfo\<close> installs it in all three.
\<close>

definition unlockedDeleteHostInfo :: "HostInfo \<Rightarrow> HostMap \<Rightarrow> HostMap" where
  "unlockedDeleteHostInfo hi hm =
     hm\<lparr>Hosts := (Hosts hm)(vpnIp hi := None),
        Indexes := (Indexes hm)(localIndexId hi := None),
        RemoteIndexes := (RemoteIndexes hm)(remoteIndexId hi := None)\<rparr>"

definition addHostInfo :: "nat \<Rightarrow> HostInfo \<Rightarrow> HostMap \<Rightarrow> HostMap" where
  "addHostInfo h hi hm =
     hm\<lparr>Hosts := (Hosts hm)(vpnIp hi \<mapsto> h),
        Indexes := (Indexes hm)(localIndexId hi \<mapsto> h),
        RemoteIndexes := (RemoteIndexes hm)(remoteIndexId hi \<mapsto> h)\<rparr>"

definition emit :: "action \<Rightarrow> hm_state \<Rightarrow> hm_state" where
  "emit a s = s\<lparr>sent := sent s @ [a]\<rparr>"

definition timer_Add :: "VpnIp \<Rightarrow> 64 word \<Rightarrow> hm_state \<Rightarrow> hm_state" where
  "timer_Add ip d s = s\<lparr>OutboundHandshakeTimer := OutboundHandshakeTimer s @ [(ip, d)]\<rparr>"

text \<open>
  Modelled from the spec: \<open>AddRelay\<close> records, on the relay's HostInfo, a relay for the
  target in state \<open>Requested\<close> under a fresh index, and registers the index in the host
  map.  Without a free index it returns index 0 and an error, which the caller logs.
\<close>

definition AddRelay :: "hs_env \<Rightarrow> nat \<Rightarrow> VpnIp \<Rightarrow> hm_state \<Rightarrow> 32 word \<times> hm_state" where
  "AddRelay E relayHostInfo ip s =
     (case new_relay_index E (mainHostMap s) of
        None \<Rightarrow> (0, s)
      | Some idx \<Rightarrow>
          (idx,
           s\<lparr>heap := (heap s)(relayHostInfo :=
                 (heap s relayHostInfo)\<lparr>relayForByIp :=
                    (relayForByIp (heap s relayHostInfo))(ip \<mapsto> \<lparr>State = Requested, LocalIndex = idx\<rparr>)\<rparr>),
              mainHostMap := (mainHostMap s)\<lparr>Relays := (Relays (mainHostMap s))(idx \<mapsto> relayHostInfo)\<rparr>\<rparr>))"

definition send_CreateRelayRequest :: "hs_env \<Rightarrow> 32 word \<Rightarrow> VpnIp \<Rightarrow> VpnIp \<Rightarrow> hm_state \<Rightarrow> hm_state" where
  "send_CreateRelayRequest E idx ip relay s =
     (case proto_Marshal_Control E
             \<lparr>Type = NebulaControl_CreateRelayRequest, InitiatorRelayIndex = idx,
              RelayFromIp = myVpnIp E, RelayToIp = ip\<rparr> of
        Inl e \<Rightarrow> s
      | Inr msg \<Rightarrow> emit (SendMessageToVpnIp relay msg) s)"

text \<open>One turn of the loop over \<open>hostinfo.remotes.relays\<close> (lines 192-254).\<close>

definition relay_step :: "hs_env \<Rightarrow> VpnIp \<Rightarrow> nat \<Rightarrow> VpnIp \<Rightarrow> hm_state \<Rightarrow> hm_state" where
  "relay_step E ip hostinfo relay s =
     (if relay = ip \<or> relay = myVpnIp E then s
      else case Hosts (mainHostMap s) relay of
        None \<Rightarrow> emit (Handshake relay) s
      | Some relayHostInfo \<Rightarrow>
          (case remote (heap s relayHostInfo) of
             None \<Rightarrow> emit (Handshake relay) s
           | Some a \<Rightarrow>
               (case relayForByIp (heap s relayHostInfo) ip of
                  Some existingRelay \<Rightarrow>
                    (case State existingRelay of
                       Established \<Rightarrow>
                         emit (SendVia relayHostInfo existingRelay (HandshakePacket (heap s hostinfo) 0)) s
                     | Requested \<Rightarrow> send_CreateRelayRequest E (LocalIndex existingRelay) ip relay s
                     | UnknownState \<Rightarrow> s)
                | None \<Rightarrow>
                    (let (idx, s') = AddRelay E relayHostInfo ip s
                     in send_CreateRelayRequest E idx ip relay s'))))"

fun relay_loop :: "hs_env \<Rightarrow> VpnIp \<Rightarrow> nat \<Rightarrow> VpnIp list \<Rightarrow> hm_state \<Rightarrow> hm_state" where
  "relay_loop E ip hostinfo [] s = s"
| "relay_loop E ip hostinfo (relay # rest) s =
     relay_loop E ip hostinfo rest (relay_step E ip hostinfo relay s)"

text \<open>
  The callback of \<open>ForEach\<close> (lines 167-179): the metric reads byte 1 of
  \<open>HandshakePacket[0]\<close>, which panics on a packet shorter than 2 bytes; then the packet
  is written to the address.  A failed write only changes what is logged.
\<close>

fun send_all :: "bytes \<Rightarrow> udp_Addr list \<Rightarrow> hm_state \<Rightarrow> unit go \<times> hm_state" where
  "send_all pkt [] s = (Returns (), s)"
| "send_all pkt (addr # rest) s =
     (if length pkt < 2 then (Panics, s)
      else send_all pkt rest (emit (WriteTo pkt addr) (emit (MessageTx (pkt ! 1)) s)))"

text \<open>
  Lines 153-155: a HostInfo without a remote list gets the lighthouse's cached one.
  \<open>known_remotes\<close> is \<open>hostinfo.remotes\<close> after that.
\<close>

definition ensure_remotes :: "hs_env \<Rightarrow> VpnIp \<Rightarrow> nat \<Rightarrow> hm_state \<Rightarrow> hm_state" where
  "ensure_remotes E ip hostinfo s =
     (case remotes (heap s hostinfo) of
        Some rl \<Rightarrow> s
      | None \<Rightarrow>
          s\<lparr>heap := (heap s)(hostinfo := (heap s hostinfo)\<lparr>remotes := Some (QueryCache E ip)\<rparr>)\<rparr>)"

definition known_remotes :: "hs_env \<Rightarrow> VpnIp \<Rightarrow> HostInfo \<Rightarrow> RemoteList" where
  "known_remotes E ip hi = (case remotes hi of Some rl \<Rightarrow> rl | None \<Rightarrow> QueryCache E ip)"

text \<open>Lines 257-264: the counter is incremented; a tick-driven attempt re-arms the wheel.\<close>

definition finish_attempt :: "hs_env \<Rightarrow> VpnIp \<Rightarrow> nat \<Rightarrow> bool \<Rightarrow> hm_state \<Rightarrow> hm_state" where
  "finish_attempt E ip hostinfo lighthouseTriggered s =
     (let s' = s\<lparr>heap := (heap s)(hostinfo :=
                   (heap s hostinfo)\<lparr>HandshakeCounter := HandshakeCounter (heap s hostinfo) + 1\<rparr>)\<rparr>
      in if \<not> lighthouseTriggered
         then timer_Add ip (tryInterval E * HandshakeCounter (heap s' hostinfo)) s'
         else s')"

text \<open>
  \<open>handleOutbound\<close>, guard by guard as in the source.  The HostInfo lock and the log
  lines leave no trace in the state; the timed-out metric is counted.
\<close>

definition handleOutbound :: "hs_env \<Rightarrow> VpnIp \<Rightarrow> bool \<Rightarrow> hm_state \<Rightarrow> unit go \<times> hm_state" where
  "handleOutbound E ip lighthouseTriggered s =
     (case Hosts (pendingHostMap s) ip of
        None \<Rightarrow> (Returns (), s)
      | Some hostinfo \<Rightarrow>
          if HandshakeComplete (heap s hostinfo) then
            (Returns (),
             s\<lparr>pendingHostMap := unlockedDeleteHostInfo (heap s hostinfo) (pendingHostMap s)\<rparr>)
          else if \<not> HandshakeReady (heap s hostinfo) then
            (Returns (),
             timer_Add ip (tryInterval E * HandshakeCounter (heap s hostinfo)) s)
          else if retries E \<le>s HandshakeCounter (heap s hostinfo) then
            (Returns (),
             s\<lparr>metricTimedOut := metricTimedOut s + 1,
               pendingHostMap := unlockedDeleteHostInfo (heap s hostinfo) (pendingHostMap s)\<rparr>)
          else if lighthouseTriggered \<and> 0 <s HandshakeCounter (heap s hostinfo) then
            (Returns (), s)
          else
            (let s1 = ensure_remotes E ip hostinfo s;
                 rl = known_remotes E ip (heap s hostinfo);
                 s2 = (if length (addrs rl) \<le> 1 then emit (QueryServer ip) s1 else s1)
             in case send_all (HandshakePacket (heap s2 hostinfo) 0) (addrs rl) s2 of
                  (Panics, s3) \<Rightarrow> (Panics, s3)
                | (Returns u, s3) \<Rightarrow>
                    (Returns (),
                     finish_attempt E ip hostinfo lighthouseTriggered
                       (if useRelays E then relay_loop E ip hostinfo (relays rl) s3 else s3))))"

text \<open>
  \<open>CheckAndComplete\<close>: the result is the HostInfo returned (if any) and the error.  The
  remote-index check of lines 330-337 only logs.  The splice of line 348 takes
  \<open>pendingHostInfo.ConnectionState.queueLock\<close>, which panics on a nil
  \<open>ConnectionState\<close>.
\<close>

definition CheckAndComplete :: "nat \<Rightarrow> 8 word \<Rightarrow> bool \<Rightarrow> hm_state
    \<Rightarrow> (nat option \<times> hs_error option) go \<times> hm_state" where
  "CheckAndComplete hostinfo handshakePacket overwrite s =
     (let existingHostInfo = Hosts (mainHostMap s) (vpnIp (heap s hostinfo)) in
      case (case existingHostInfo of
              None \<Rightarrow> None
            | Some e \<Rightarrow>
                if HandshakePacket (heap s hostinfo) handshakePacket
                     = HandshakePacket (heap s e) handshakePacket
                  then Some ErrAlreadySeen
                else if lastHandshakeTime (heap s e) \<ge> lastHandshakeTime (heap s hostinfo)
                  then Some ErrExistingHostInfo
                else None) of
        Some err \<Rightarrow> (Returns (existingHostInfo, Some err), s)
      | None \<Rightarrow>
          (case Indexes (mainHostMap s) (localIndexId (heap s hostinfo)) of
             Some existingIndex \<Rightarrow> (Returns (Some existingIndex, Some ErrLocalIndexCollision), s)
           | None \<Rightarrow>
               (case (case Indexes (pendingHostMap s) (localIndexId (heap s hostinfo)) of
                        Some existingIndex \<Rightarrow>
                          if existingIndex \<noteq> hostinfo then Some existingIndex else None
                      | None \<Rightarrow> None) of
                  Some existingIndex \<Rightarrow>
                    (Returns (Some existingIndex, Some ErrLocalIndexCollision), s)
                | None \<Rightarrow>
                    (case (case Hosts (pendingHostMap s) (vpnIp (heap s hostinfo)) of
                             None \<Rightarrow> Returns (Inr s)
                           | Some pendingHostInfo \<Rightarrow>
                               if \<not> overwrite then Returns (Inl pendingHostInfo)
                               else if ConnectionState (heap s pendingHostInfo) = None then Panics
                               else Returns (Inr
                                 (s\<lparr>heap := (heap s)(hostinfo :=
                                        (heap s hostinfo)\<lparr>packetStore :=
                                           packetStore (heap s hostinfo)
                                           @ packetStore (heap s pendingHostInfo)\<rparr>),
                                    pendingHostMap :=
                                      unlockedDeleteHostInfo (heap s pendingHostInfo)
                                        (pendingHostMap s)\<rparr>))) of
                       Panics \<Rightarrow> (Panics, s)
                     | Returns (Inl pendingHostInfo) \<Rightarrow>
                         (Returns (Some pendingHostInfo, Some ErrExistingHandshake), s)
                     | Returns (Inr s1) \<Rightarrow>
                         (let s2 = (case existingHostInfo of
                                      None \<Rightarrow> s1
                                    | Some e \<Rightarrow>
                                        s1\<lparr>mainHostMap := (mainHostMap s1)
                                             \<lparr>Hosts := (Hosts (mainHostMap s1))(vpnIp (heap s1 e) := None),
                                              Indexes := (Indexes (mainHostMap s1))
                                                 (localIndexId (heap s1 e) := None),
                                              RemoteIndexes := (RemoteIndexes (mainHostMap s1))
                                                 (remoteIndexId (heap s1 e) := None)\<rparr>\<rparr>)
                          in (Returns (existingHostInfo, None),
                              s2\<lparr>mainHostMap :=
                                   addHostInfo hostinfo (heap s2 hostinfo) (mainHostMap s2)\<rparr>))))))"

text \<open>Go's integer division truncates towards zero (\<open>sdiv\<close>).\<close>

definition go_div :: "64 word \<Rightarrow> 64 word \<Rightarrow> 64 word" where
  "go_div a b = word_of_int (sint a sdiv sint b)"

definition hsTimeout :: "64 word \<Rightarrow> 64 word \<Rightarrow> 64 word" where
  "hsTimeout tries interval = go_div tries 2 * ((2 * interval) + (tries - 1) * interval)"

definition is_WriteTo :: "action \<Rightarrow> bool" where
  "is_WriteTo a = (case a of WriteTo pkt addr \<Rightarrow> True | _ \<Rightarrow> False)"

text \<open>
  What the relay block (lines 189-255) leaves alone: it writes nothing to the UDP socket,
  and keeps the wheel, the pending map and every counter, packet and remote list.
\<close>

definition relay_frame :: "hm_state \<Rightarrow> hm_state \<Rightarrow> bool" where
  "relay_frame s s' =
     ((\<exists>new. sent s' = sent s @ new \<and> filter is_WriteTo new = [])
      \<and> OutboundHandshakeTimer s' = OutboundHandshakeTimer s
      \<and> pendingHostMap s' = pendingHostMap s
      \<and> (\<forall>x. HandshakeCounter (heap s' x) = HandshakeCounter (heap s x)
             \<and> HandshakePacket (heap s' x) = HandshakePacket (heap s x)
             \<and> remotes (heap s' x) = remotes (heap s x)))"

section \<open>A concrete instance\<close>

text \<open>
  Concrete primitives and certificates, on which the definitions above evaluate.  The
  toy signature of a message is the signer's public key followed by the message; an
  Ed25519 private key holds its public key in its last 32 bytes.  The toy encoding of a
  certificate starts with its public key, and the toy hash keeps the first two bytes.
\<close>

definition ex_prims :: prims where
  "ex_prims =
     \<lparr>proto_Marshal_Details =
        (\<lambda>rd. Inr (map (\<lambda>c. of_nat (of_char c)) (Raw_Name rd) @ Raw_PublicKey rd)),
      proto_Marshal =
        (\<lambda>rc. Inr (1 # (case Raw_Details rc of None \<Rightarrow> [] | Some rd \<Rightarrow> Raw_PublicKey rd)
                      @ Raw_Signature rc)),
      proto_Unmarshal = (\<lambda>b. Inl ''not a certificate''),
      sha256_Sum256 = take 2,
      ed25519_sign = (\<lambda>priv m. drop 32 priv @ m),
      ed25519_verify = (\<lambda>pub m sig. sig = pub @ m),
      p256_SignASN1 = (\<lambda>k h. Returns (Inl ''no entropy'')),
      p256_VerifyASN1 = (\<lambda>k h sig. Returns False)\<rparr>"

definition ex_ca :: NebulaCertificate where
  "ex_ca =
     \<lparr>Details =
        \<lparr>Name = ''ca'',
         Ips = [\<lparr>IP = [10, 0, 0, 0], Mask = [255, 0, 0, 0]\<rparr>],
         Subnets = [],
         Groups = [''ops'', ''dev''],
         NotBefore = 1000000000,
         NotAfter = 9000000000,
         PublicKey = replicate 32 0xAB,
         IsCA = True,
         Issuer = [],
         InvertedGroups = {''ops'', ''dev''},
         Curve = Curve_CURVE25519\<rparr>,
      Pkcs11Backed = False,
      Signature = [],
      sha256sum = None,
      signatureVerified = None\<rparr>"

definition ex_leaf :: NebulaCertificate where
  "ex_leaf =
     \<lparr>Details =
        \<lparr>Name = ''h'',
         Ips = [\<lparr>IP = [10, 1, 2, 3], Mask = [255, 255, 255, 0]\<rparr>],
         Subnets = [],
         Groups = [''dev''],
         NotBefore = 2000000000,
         NotAfter = 8000000000,
         PublicKey = replicate 32 9,
         IsCA = False,
         Issuer = ''01ab'',
         InvertedGroups = {''dev''},
         Curve = Curve_CURVE25519\<rparr>,
      Pkcs11Backed = False,
      Signature = replicate 32 0xAB @ [104] @ replicate 32 9,
      sha256sum = None,
      signatureVerified = None\<rparr>"

text \<open>The pool files the CA under its fingerprint, which is the leaf's issuer.\<close>

definition ex_pool :: CAPool where
  "ex_pool = \<lparr>CAs = [''01ab'' \<mapsto> ex_ca], certBlocklist = {}\<rparr>"

text \<open>
  A second pool with the same CA and one more, and the leaf after one successful
  \<open>VerifyWithCache\<close> against the first pool.
\<close>

definition ex_ca_b :: NebulaCertificate where
  "ex_ca_b = ex_ca\<lparr>Details := (Details ex_ca)\<lparr>Name := ''cb'', PublicKey := replicate 32 0xCD\<rparr>\<rparr>"

definition ex_pool_b :: CAPool where
  "ex_pool_b = \<lparr>CAs = [''01ab'' \<mapsto> ex_ca, ''01cd'' \<mapsto> ex_ca_b], certBlocklist = {}\<rparr>"

definition ex_leaf_cached :: NebulaCertificate where
  "ex_leaf_cached = snd (VerifyWithCache ex_prims (ResetCache ex_leaf) 2000000000 ex_pool)"

text \<open>
  The same CA with the mask of its net 10.0.0.0/8 in the 16-byte IPv4-mapped form that
  \<open>maskTo4\<close> accepts, and its pool.
\<close>

definition ex_ca_mapped :: NebulaCertificate where
  "ex_ca_mapped =
     ex_ca\<lparr>Details := (Details ex_ca)
       \<lparr>Ips := [\<lparr>IP = [10, 0, 0, 0],
                 Mask = [0, 0, 0, 0, 0, 0, 0, 0, 0, 0, 0xff, 0xff, 0xff, 0, 0, 0]\<rparr>]\<rparr>\<rparr>"

definition ex_pool_mapped :: CAPool where
  "ex_pool_mapped = \<lparr>CAs = [''01ab'' \<mapsto> ex_ca_mapped], certBlocklist = {}\<rparr>"

text \<open>
  The protobuf message of the leaf, a protobuf codec that knows this one message, and
  the leaf with its issuer in upper case (which has the same message).
\<close>

definition ex_raw :: RawNebulaCertificate where
  "ex_raw =
     \<lparr>Raw_Details = Some
        \<lparr>Raw_Name = ''h'', Raw_Ips = [0x0A010203, 0xFFFFFF00], Raw_Subnets = [],
         Raw_Groups = [''dev''], Raw_NotBefore = 2, Raw_NotAfter = 8,
         Raw_PublicKey = replicate 32 9, Raw_IsCA = False, Raw_Issuer = [0x01, 0xAB],
         Raw_Curve = 0\<rparr>,
      Raw_Signature = replicate 32 0xAB @ [104] @ replicate 32 9\<rparr>"

definition ex_codec :: prims where
  "ex_codec =
     ex_prims\<lparr>proto_Marshal := (\<lambda>rc. if rc = ex_raw then Inr [1] else Inr [0]),
              proto_Unmarshal := (\<lambda>b. if b = [1] then Inr ex_raw else Inl ''not a certificate'')\<rparr>"

definition ex_upper :: NebulaCertificate where
  "ex_upper = ex_leaf\<lparr>Details := (Details ex_leaf)\<lparr>Issuer := ''01AB''\<rparr>\<rparr>"

text \<open>
  A manager with a 100 ms interval and 10 retries, one pending HostInfo at address 1
  for 10.0.0.2, and a second HostInfo at address 2 for the same peer.
\<close>

definition ex_env :: hs_env where
  "ex_env =
     \<lparr>tryInterval = 100000000,
      retries = 10,
      useRelays = True,
      myVpnIp = 0x0A000001,
      QueryCache = (\<lambda>ip. \<lparr>addrs = [\<lparr>addr_IP = [192, 0, 2, 1], addr_Port = 4242\<rparr>], relays = []\<rparr>),
      proto_Marshal_Control = (\<lambda>m. Inr [1]),
      new_relay_index = (\<lambda>hm. Some 7)\<rparr>"

definition ex_host :: HostInfo where
  "ex_host =
     \<lparr>vpnIp = 0x0A000002,
      localIndexId = 11,
      remoteIndexId = 0,
      HandshakePacket = (\<lambda>stage. if stage = 0 then [1, 0, 0, 0] else []),
      HandshakeCounter = 0,
      HandshakeReady = False,
      HandshakeComplete = False,
      lastHandshakeTime = 0,
      packetStore = [],
      remotes = None,
      remote = None,
      relayForByIp = Map.empty,
      ConnectionState = None\<rparr>"

definition ex_state :: "HostInfo \<Rightarrow> hm_state" where
  "ex_state hi =
     \<lparr>heap = (\<lambda>p. if p = 2 then ex_host\<lparr>localIndexId := 12\<rparr> else hi),
      pendingHostMap =
        \<lparr>Hosts = [0x0A000002 \<mapsto> 1], Indexes = [11 \<mapsto> 1],
         RemoteIndexes = Map.empty, Relays = Map.empty\<rparr>,
      mainHostMap =
        \<lparr>Hosts = Map.empty, Indexes = Map.empty, RemoteIndexes = Map.empty, Relays = Map.empty\<rparr>,
      OutboundHandshakeTimer = [],
      sent = [],
      metricTimedOut = 0\<rparr>"

section \<open>Properties of the certificate model\<close>

lemmas cert_defs = verify_def Verify_def VerifyWithCache_def isBlocklistedWithCache_def
  sha256SumWithCache_def Sha256Sum_def Marshal_def getRawDetails_def GetCAForCert_def
  Expired_def Before_def After_def checkSignatureWithCache_def CheckSignature_def
  ed25519_Verify_def CheckRootConstrains_def ip2int_def BigEndian_Uint32_def
  hex_EncodeToString_def hextable_def fromHexChar_def Unix_def Contains_def
  networkNumberAndMask_def To4_def maskContains_def maskTo4_def maskContains_loop.simps
  Curve_CURVE25519_def Curve_P256_def

lemmas ex_defs = ex_prims_def ex_ca_def ex_leaf_def ex_pool_def

subsection \<open>The caches leave the certificate's fields alone\<close>

lemma Details_sha256SumWithCache [simp]:
  "Details (snd (sha256SumWithCache P nc uc)) = Details nc"
  by (simp add: sha256SumWithCache_def split: option.splits go.splits sum.splits)

lemma Signature_sha256SumWithCache [simp]:
  "Signature (snd (sha256SumWithCache P nc uc)) = Signature nc"
  by (simp add: sha256SumWithCache_def split: option.splits go.splits sum.splits)

lemma Details_isBlocklistedWithCache [simp]:
  "Details (snd (isBlocklistedWithCache P ncp nc uc)) = Details nc"
proof -
  obtain r c where rc: "sha256SumWithCache P nc uc = (r, c)"
    by (cases "sha256SumWithCache P nc uc")
  then have "Details c = Details nc"
    using Details_sha256SumWithCache[of P nc uc] by simp
  with rc show ?thesis
    by (simp add: isBlocklistedWithCache_def split: go.splits sum.splits)
qed

subsection \<open>The loops of CheckRootConstrains\<close>

lemma check_groups_Some:
  "check_groups S gs = Some e \<Longrightarrow> \<exists>g\<in>set gs. e = ErrGroupNotPresent g \<and> g \<notin> S"
  by (induction gs) (auto split: if_splits)

lemma check_groups_None: "check_groups S gs = None \<longleftrightarrow> set gs \<subseteq> S"
  by (induction gs) auto

lemma check_nets_Some:
  "check_nets f roots ips = Returns (Some e) \<Longrightarrow>
     \<exists>ip\<in>set ips. e = f ip \<and> netMatch ip roots = Returns False"
  by (induction ips) (auto split: go.splits bool.splits)

lemma check_nets_None:
  "check_nets f roots ips = Returns None \<longleftrightarrow> (\<forall>ip\<in>set ips. netMatch ip roots = Returns True)"
  by (induction ips) (auto split: go.splits bool.splits)

lemma CheckRootConstrains_not_ErrExpired:
  "CheckRootConstrains nc signer \<noteq> Returns (Some ErrExpired)"
  by (auto simp: CheckRootConstrains_def split: if_splits option.splits go.splits
      dest!: check_groups_Some check_nets_Some)

subsection \<open>Expiry\<close>

lemma verify_ErrExpired:
  assumes "fst (verify P nc t ncp uc) = Returns (b, Some ErrExpired)"
  shows "Expired nc t"
proof -
  obtain r nc1 where bl: "isBlocklistedWithCache P ncp nc uc = (r, nc1)"
    by (cases "isBlocklistedWithCache P ncp nc uc")
  have d: "Details nc1 = Details nc"
    using Details_isBlocklistedWithCache[of P ncp nc uc] bl by simp
  have e: "Expired nc1 t = Expired nc t"
    by (simp add: Expired_def d)
  show ?thesis
    using assms bl e CheckRootConstrains_not_ErrExpired
    by (auto simp: verify_def GetCAForCert_def
        split: go.splits bool.splits sum.splits if_splits option.splits prod.splits)
qed

text \<open>
  C10.  \<open>Expired t\<close> is false exactly when \<open>NotBefore \<le> t \<le> NotAfter\<close>, both ends
  included; a certificate whose window is not empty is valid at its \<open>NotBefore\<close> and at
  its \<open>NotAfter\<close> instant, and \<open>Verify\<close> at those instants does not return the
  \<open>Expired\<close> error, whatever the pool.
\<close>

theorem Expired_inclusive:
  "(\<not> Expired nc t \<longleftrightarrow> NotBefore (Details nc) \<le> t \<and> t \<le> NotAfter (Details nc))
   \<and> (NotBefore (Details nc) \<le> NotAfter (Details nc) \<longrightarrow>
        \<not> Expired nc (NotBefore (Details nc)) \<and> \<not> Expired nc (NotAfter (Details nc))
        \<and> fst (Verify P nc (NotBefore (Details nc)) ncp) \<noteq> Returns (False, Some ErrExpired)
        \<and> fst (Verify P nc (NotAfter (Details nc)) ncp) \<noteq> Returns (False, Some ErrExpired))"
proof -
  have iff: "\<And>u. \<not> Expired nc u \<longleftrightarrow> NotBefore (Details nc) \<le> u \<and> u \<le> NotAfter (Details nc)"
    by (auto simp: Expired_def Before_def After_def)
  show ?thesis
    using iff verify_ErrExpired[of P nc _ ncp False False]
    by (auto simp: Verify_def)
qed

theorem Expired_inclusive_witness:
  "\<not> Expired ex_leaf 2000000000 \<and> \<not> Expired ex_leaf 8000000000
   \<and> fst (Verify ex_prims ex_leaf 2000000000 ex_pool) \<noteq> Returns (False, Some ErrExpired)
   \<and> fst (Verify ex_prims ex_leaf 8000000000 ex_pool) \<noteq> Returns (False, Some ErrExpired)"
  using Expired_inclusive[of ex_leaf 0 ex_prims ex_pool]
  by (simp add: ex_leaf_def)

subsection \<open>Copy\<close>

lemma IPNet_rebuild: "\<lparr>IP = IP p, Mask = Mask p\<rparr> = p"
  by (cases p) simp

lemma Copy_fields:
  "Details (Copy nc) = (Details nc)\<lparr>Curve := Curve_CURVE25519\<rparr> \<and> Signature (Copy nc) = Signature nc"
  by (cases "Details nc") (simp add: Copy_def Curve_CURVE25519_def IPNet_rebuild)

text \<open>
  C9.  \<open>Copy\<close> of a P-256 certificate is a Curve25519 certificate: the copy's \<open>Curve\<close>
  is the zero value, not the original's.
\<close>

theorem Copy_drops_Curve:
  "Curve (Details (ex_leaf\<lparr>Details := (Details ex_leaf)\<lparr>Curve := Curve_P256\<rparr>\<rparr>)) = Curve_P256
   \<and> Curve (Details (Copy (ex_leaf\<lparr>Details := (Details ex_leaf)\<lparr>Curve := Curve_P256\<rparr>\<rparr>)))
       = Curve_CURVE25519"
  by (simp add: Copy_def Curve_CURVE25519_def)

subsection \<open>Root constraints\<close>

text \<open>
  A signer mask in the 16-byte IPv4-mapped form makes \<open>maskContains\<close> run its index up
  to 16 over 4-byte slices: it returns false on a byte that is too large, and panics
  otherwise.
\<close>

lemma maskContains_mapped_mask_panics:
  "maskContains [0, 0, 0, 0, 0, 0, 0, 0, 0, 0, 0xff, 0xff, 0xff, 0, 0, 0] [0xff, 0xff, 0, 0] = Panics"
  by (simp add: maskContains_def maskTo4_def maskContains_loop.simps)

lemma maskContains_loop_total:
  "length caM = n \<Longrightarrow> length cM = n \<Longrightarrow> maskContains_loop caM cM n i \<noteq> Panics"
proof (induction caM cM n i rule: maskContains_loop.induct)
  case (1 caM cM n i)
  then show ?case
    by (subst maskContains_loop.simps) auto
qed

lemma maskTo4_length: "maskTo4 m = Some x \<Longrightarrow> length x = 4"
  by (auto simp: maskTo4_def split: if_splits)

lemma maskContains_total: "length caMask = 4 \<Longrightarrow> maskContains caMask certMask \<noteq> Panics"
  using maskContains_loop_total[of _ 4]
  by (auto simp: maskContains_def split: option.splits dest!: maskTo4_length)

lemma netMatch_total:
  "\<forall>n\<in>set roots. length (Mask n) = 4 \<Longrightarrow> netMatch ip roots \<noteq> Panics"
  by (induction roots) (auto split: go.splits bool.splits dest: maskContains_total)

lemma check_nets_total:
  "\<forall>n\<in>set roots. length (Mask n) = 4 \<Longrightarrow> check_nets f roots ips \<noteq> Panics"
  by (induction ips) (auto split: go.splits bool.splits dest: netMatch_total)

lemma CheckRootConstrains_total:
  assumes "\<forall>n\<in>set (Ips (Details s)) \<union> set (Subnets (Details s)). length (Mask n) = 4"
  shows "CheckRootConstrains l s \<noteq> Panics"
proof -
  have a: "\<And>f ips. check_nets f (Ips (Details s)) ips \<noteq> Panics"
    using assms by (intro check_nets_total) auto
  have b: "\<And>f ips. check_nets f (Subnets (Details s)) ips \<noteq> Panics"
    using assms by (intro check_nets_total) auto
  show ?thesis
    using a b by (auto simp: CheckRootConstrains_def split: option.splits go.splits)
qed

text \<open>
  C1 fails in the code.  The leaf 10.1.2.3/24 names a CA whose net 10.0.0.0/8 has its
  mask in the 16-byte IPv4-mapped form.  The pool resolves the CA, the leaf is not
  blocklisted, neither certificate is expired at the time, the signature checks, the
  leaf's validity lies within the CA's, its group is one of the CA's, and its net is
  contained in the CA's net (the address is covered and the mask is at least as wide):
  \<open>Verify\<close> panics.  With the same mask in 4 bytes it succeeds.
\<close>

theorem Verify_mapped_mask_panics:
  "GetCAForCert ex_pool_mapped ex_leaf = Inr ex_ca_mapped
   \<and> fst (isBlocklistedWithCache ex_prims ex_pool_mapped ex_leaf False) = Returns False
   \<and> Expired ex_ca_mapped 2000000000 = False
   \<and> Expired ex_leaf 2000000000 = False
   \<and> CheckSignature ex_prims ex_leaf (PublicKey (Details ex_ca_mapped)) = Returns True
   \<and> NotBefore (Details ex_ca_mapped) \<le> NotBefore (Details ex_leaf)
   \<and> NotAfter (Details ex_leaf) \<le> NotAfter (Details ex_ca_mapped)
   \<and> Groups (Details ex_leaf) = [''dev'']
   \<and> ''dev'' \<in> InvertedGroups (Details ex_ca_mapped)
   \<and> Subnets (Details ex_leaf) = []
   \<and> Ips (Details ex_leaf) = [\<lparr>IP = [10, 1, 2, 3], Mask = [255, 255, 255, 0]\<rparr>]
   \<and> Ips (Details ex_ca_mapped) =
        [\<lparr>IP = [10, 0, 0, 0], Mask = [0, 0, 0, 0, 0, 0, 0, 0, 0, 0, 0xff, 0xff, 0xff, 0, 0, 0]\<rparr>]
   \<and> ip2int [10, 1, 2, 3] = Returns 0x0A010203
   \<and> ip2int [255, 255, 255, 0] = Returns 0xFFFFFF00
   \<and> ip2int [10, 0, 0, 0] = Returns 0x0A000000
   \<and> ip2int [0, 0, 0, 0, 0, 0, 0, 0, 0, 0, 0xff, 0xff, 0xff, 0, 0, 0] = Returns 0xFF000000
   \<and> spec_contained 0x0A000000 0xFF000000 0x0A010203 0xFFFFFF00
   \<and> fst (Verify ex_prims ex_leaf 2000000000 ex_pool_mapped) = Panics
   \<and> fst (Verify ex_prims ex_leaf 2000000000 ex_pool) = Returns (True, None)"
proof -
  note mapped = ex_ca_mapped_def ex_pool_mapped_def
  have 1: "GetCAForCert ex_pool_mapped ex_leaf = Inr ex_ca_mapped"
    by (simp add: GetCAForCert_def ex_pool_mapped_def ex_leaf_def)
  have 2: "fst (isBlocklistedWithCache ex_prims ex_pool_mapped ex_leaf False) = Returns False"
    by (simp add: mapped cert_defs ex_defs)
  have 3: "Expired ex_ca_mapped 2000000000 = False" "Expired ex_leaf 2000000000 = False"
    by (simp_all add: mapped cert_defs ex_defs)
  have 4: "CheckSignature ex_prims ex_leaf (PublicKey (Details ex_ca_mapped)) = Returns True"
    by (simp add: mapped cert_defs ex_defs)
  have 5: "NotBefore (Details ex_ca_mapped) \<le> NotBefore (Details ex_leaf)"
    "NotAfter (Details ex_leaf) \<le> NotAfter (Details ex_ca_mapped)"
    "Groups (Details ex_leaf) = [''dev'']"
    "''dev'' \<in> InvertedGroups (Details ex_ca_mapped)"
    "Subnets (Details ex_leaf) = []"
    "Ips (Details ex_leaf) = [\<lparr>IP = [10, 1, 2, 3], Mask = [255, 255, 255, 0]\<rparr>]"
    "Ips (Details ex_ca_mapped) =
        [\<lparr>IP = [10, 0, 0, 0], Mask = [0, 0, 0, 0, 0, 0, 0, 0, 0, 0, 0xff, 0xff, 0xff, 0, 0, 0]\<rparr>]"
    by (simp_all add: mapped ex_defs)
  have 6: "ip2int [10, 1, 2, 3] = Returns 0x0A010203"
    "ip2int [255, 255, 255, 0] = Returns 0xFFFFFF00"
    "ip2int [10, 0, 0, 0] = Returns 0x0A000000"
    "ip2int [0, 0, 0, 0, 0, 0, 0, 0, 0, 0, 0xff, 0xff, 0xff, 0, 0, 0] = Returns 0xFF000000"
    by (simp_all add: ip2int_def BigEndian_Uint32_def)
  have 7: "spec_contained 0x0A000000 0xFF000000 0x0A010203 0xFFFFFF00"
    by (simp add: spec_contained_def)
  have 8: "fst (Verify ex_prims ex_leaf 2000000000 ex_pool_mapped) = Panics"
    by (simp add: mapped cert_defs ex_defs)
  have 9: "fst (Verify ex_prims ex_leaf 2000000000 ex_pool) = Returns (True, None)"
    by (simp add: cert_defs ex_defs)
  from 1 2 3 4 5 6 7 8 9 show ?thesis by blast
qed

subsection \<open>The caches of VerifyWithCache\<close>

lemma getRawDetails_cong: "Details a = Details b \<Longrightarrow> getRawDetails a = getRawDetails b"
  by (simp add: getRawDetails_def cong: go.case_cong)

lemma Sha256Sum_cong:
  "Details a = Details b \<Longrightarrow> Signature a = Signature b \<Longrightarrow> Sha256Sum P a = Sha256Sum P b"
  by (simp add: Sha256Sum_def Marshal_def getRawDetails_cong[of a b] split: go.splits sum.splits)

lemma CheckSignature_cong:
  "Details a = Details b \<Longrightarrow> Signature a = Signature b \<Longrightarrow> CheckSignature P a k = CheckSignature P b k"
  by (simp add: CheckSignature_def getRawDetails_cong[of a b] split: go.splits sum.splits)

lemma CheckRootConstrains_cong:
  "Details a = Details b \<Longrightarrow> CheckRootConstrains a s = CheckRootConstrains b s"
  by (simp add: CheckRootConstrains_def cong: option.case_cong go.case_cong if_cong)

lemma cache_ok_sha256SumWithCache:
  "cache_ok P nc \<Longrightarrow> cache_ok P (snd (sha256SumWithCache P nc uc))"
  by (auto simp: cache_ok_def sha256SumWithCache_def
      Sha256Sum_cong[of "nc\<lparr>sha256sum := Some _\<rparr>" nc] CheckSignature_cong[of "nc\<lparr>sha256sum := Some _\<rparr>" nc]
      split: option.splits go.splits sum.splits)

lemma fst_sha256SumWithCache:
  "cache_ok P nc \<Longrightarrow> fst (sha256SumWithCache P nc uc) = Sha256Sum P nc"
  by (auto simp: cache_ok_def sha256SumWithCache_def split: option.splits go.splits sum.splits)


lemma sha256SumWithCache_fields:
  "Details (snd (sha256SumWithCache P nc uc)) = Details nc
   \<and> Signature (snd (sha256SumWithCache P nc uc)) = Signature nc
   \<and> signatureVerified (snd (sha256SumWithCache P nc uc)) = signatureVerified nc"
  by (simp add: sha256SumWithCache_def split: option.splits go.splits sum.splits)

lemma isBlocklistedWithCache_snd:
  "snd (isBlocklistedWithCache P ncp nc uc) = snd (sha256SumWithCache P nc uc)"
  by (cases "sha256SumWithCache P nc uc")
     (simp add: isBlocklistedWithCache_def split: go.splits sum.splits)

lemma isBlocklistedWithCache_fst:
  "cache_ok P nc \<Longrightarrow>
     fst (isBlocklistedWithCache P ncp nc uc) = fst (isBlocklistedWithCache P ncp nc False)"
  using fst_sha256SumWithCache[of P nc uc] fst_sha256SumWithCache[of P nc False]
  by (cases "sha256SumWithCache P nc uc"; cases "sha256SumWithCache P nc False")
     (simp add: isBlocklistedWithCache_def split: go.splits sum.splits)

lemma checkSignatureWithCache_fields:
  "Details (snd (checkSignatureWithCache P nc k uc)) = Details nc
   \<and> Signature (snd (checkSignatureWithCache P nc k uc)) = Signature nc
   \<and> sha256sum (snd (checkSignatureWithCache P nc k uc)) = sha256sum nc"
  by (simp add: checkSignatureWithCache_def split: option.splits go.splits bool.splits)

lemma cache_ok_cong:
  "Details a = Details b \<Longrightarrow> Signature a = Signature b \<Longrightarrow> sha256sum a = sha256sum b
   \<Longrightarrow> signatureVerified a = signatureVerified b \<Longrightarrow> cache_ok P a = cache_ok P b"
  by (auto simp: cache_ok_def Sha256Sum_cong[of a b] CheckSignature_cong[of a b] split: option.splits)

lemma cache_ok_checkSignatureWithCache:
  assumes "cache_ok P nc"
  shows "cache_ok P (snd (checkSignatureWithCache P nc k uc))"
proof (cases "uc \<and> signatureVerified nc = None \<and> CheckSignature P nc k = Returns True")
  case True
  then have s: "snd (checkSignatureWithCache P nc k uc) = nc\<lparr>signatureVerified := Some k\<rparr>"
    by (simp add: checkSignatureWithCache_def)
  have "CheckSignature P (nc\<lparr>signatureVerified := Some k\<rparr>) k = Returns True"
    using True CheckSignature_cong[of "nc\<lparr>signatureVerified := Some k\<rparr>" nc P k] by simp
  moreover have "Sha256Sum P (nc\<lparr>signatureVerified := Some k\<rparr>) = Sha256Sum P nc"
    by (rule Sha256Sum_cong) simp_all
  ultimately show ?thesis
    using assms unfolding s by (auto simp: cache_ok_def split: option.splits)
next
  case False
  then have "snd (checkSignatureWithCache P nc k uc) = nc"
    by (auto simp: checkSignatureWithCache_def split: option.splits go.splits bool.splits)
  with assms show ?thesis by simp
qed

lemma verify_snd_cases:
  "snd (verify P nc t ncp uc) = snd (isBlocklistedWithCache P ncp nc uc)
   \<or> (\<exists>k. snd (verify P nc t ncp uc) =
            snd (checkSignatureWithCache P (snd (isBlocklistedWithCache P ncp nc uc)) k uc))"
proof -
  obtain r b where bl: "isBlocklistedWithCache P ncp nc uc = (r, b)"
    by (cases "isBlocklistedWithCache P ncp nc uc")
  show ?thesis
  proof (cases "GetCAForCert ncp b")
    case (Inl e)
    then show ?thesis
      by (simp add: verify_def bl split: go.splits bool.splits)
  next
    case (Inr signer)
    obtain q x where cs: "checkSignatureWithCache P b (PublicKey (Details signer)) uc = (q, x)"
      by (cases "checkSignatureWithCache P b (PublicKey (Details signer)) uc")
    have "snd (verify P nc t ncp uc) = b \<or> snd (verify P nc t ncp uc) = x"
      by (simp add: verify_def bl Inr cs split: go.splits bool.splits option.splits)
    then show ?thesis
      using cs by (auto simp: bl intro: exI[of _ "PublicKey (Details signer)"])
  qed
qed

lemma verify_fields:
  "Details (snd (verify P nc t ncp uc)) = Details nc
   \<and> Signature (snd (verify P nc t ncp uc)) = Signature nc"
  using verify_snd_cases[of P nc t ncp uc]
  by (auto simp: isBlocklistedWithCache_snd sha256SumWithCache_fields checkSignatureWithCache_fields)

lemma cache_ok_verify:
  assumes "cache_ok P nc"
  shows "cache_ok P (snd (verify P nc t ncp uc))"
  using verify_snd_cases[of P nc t ncp uc] cache_ok_sha256SumWithCache[OF assms, of uc]
  by (auto simp: isBlocklistedWithCache_snd intro: cache_ok_checkSignatureWithCache)

lemma cache_reachable_ok:
  "cache_reachable P pools c nc \<Longrightarrow>
     cache_ok P nc \<and> Details nc = Details c \<and> Signature nc = Signature c"
proof (induction rule: cache_reachable.induct)
  case fresh
  show ?case by (simp add: cache_ok_def ResetCache_def)
next
  case (call nc t ncp useCache)
  then show ?case by (simp add: cache_ok_verify verify_fields)
qed

lemma GetCAForCert_cong: "Details a = Details b \<Longrightarrow> GetCAForCert ncp a = GetCAForCert ncp b"
  by (simp add: GetCAForCert_def)

lemma Expired_cong: "Details a = Details b \<Longrightarrow> Expired a t = Expired b t"
  by (simp add: Expired_def)

lemma verify_transparent:
  assumes ok: "cache_ok P nc"
    and key: "\<And>k s. signatureVerified nc = Some k \<Longrightarrow> GetCAForCert ncp nc = Inr s \<Longrightarrow>
               CheckSignature P nc (PublicKey (Details s)) = Returns (PublicKey (Details s) = k)"
  shows "fst (verify P nc t ncp True) = fst (verify P nc t ncp False)"
proof -
  obtain r nc1 where bl: "isBlocklistedWithCache P ncp nc True = (r, nc1)"
    by (cases "isBlocklistedWithCache P ncp nc True")
  have blF: "isBlocklistedWithCache P ncp nc False = (r, nc)"
    using isBlocklistedWithCache_fst[OF ok, of ncp True] bl
      isBlocklistedWithCache_snd[of P ncp nc False]
    by (cases "isBlocklistedWithCache P ncp nc False") (simp add: sha256SumWithCache_def)
  have f: "Details nc1 = Details nc" "Signature nc1 = Signature nc"
    "signatureVerified nc1 = signatureVerified nc"
    using bl isBlocklistedWithCache_snd[of P ncp nc True] sha256SumWithCache_fields[of P nc True]
    by simp_all
  note ca = GetCAForCert_cong[OF f(1), of ncp]
  note ex = Expired_cong[OF f(1), of t]
  show ?thesis
  proof (cases "GetCAForCert ncp nc")
    case (Inl e)
    then show ?thesis
      by (simp add: verify_def bl blF ca split: go.splits bool.splits)
  next
    case (Inr signer)
    let ?k = "PublicKey (Details signer)"
    obtain q nc2 where cs: "checkSignatureWithCache P nc1 ?k True = (q, nc2)"
      by (cases "checkSignatureWithCache P nc1 ?k True")
    have d2: "Details nc2 = Details nc"
      using checkSignatureWithCache_fields[of P nc1 ?k True] cs f by simp
    have q: "q = CheckSignature P nc ?k"
    proof (cases "signatureVerified nc")
      case None
      then show ?thesis
        using cs f(3) CheckSignature_cong[OF f(1) f(2), of P ?k]
        by (auto simp: checkSignatureWithCache_def split: go.splits bool.splits)
    next
      case (Some k)
      from key[OF Some Inr] cs f(3) Some show ?thesis
        by (auto simp: checkSignatureWithCache_def)
    qed
    have csF: "checkSignatureWithCache P nc ?k False = (q, nc)"
      by (simp add: checkSignatureWithCache_def q)
    note rc = CheckRootConstrains_cong[OF d2, of signer]
    show ?thesis
      by (simp add: verify_def bl blF ca ex Inr cs csF rc split: go.splits bool.splits option.splits)
  qed
qed

lemma checkSignatureWithCache_key:
  "signatureVerified (snd (checkSignatureWithCache P nc k uc)) = Some j
   \<Longrightarrow> signatureVerified nc = Some j \<or> j = k"
  by (auto simp: checkSignatureWithCache_def split: option.splits go.splits bool.splits if_splits)

lemma verify_key:
  assumes "signatureVerified (snd (verify P nc t ncp uc)) = Some j"
  shows "signatureVerified nc = Some j
         \<or> (\<exists>s. GetCAForCert ncp nc = Inr s \<and> PublicKey (Details s) = j)"
proof -
  obtain r b where bl: "isBlocklistedWithCache P ncp nc uc = (r, b)"
    by (cases "isBlocklistedWithCache P ncp nc uc")
  have f: "Details b = Details nc" "signatureVerified b = signatureVerified nc"
    using bl isBlocklistedWithCache_snd[of P ncp nc uc] sha256SumWithCache_fields[of P nc uc]
    by simp_all
  note ca = GetCAForCert_cong[OF f(1), of ncp]
  show ?thesis
  proof (cases "GetCAForCert ncp nc")
    case (Inl e)
    then have "snd (verify P nc t ncp uc) = b"
      by (simp add: verify_def bl ca split: go.splits bool.splits)
    with assms f(2) show ?thesis by simp
  next
    case (Inr signer)
    obtain q x where cs: "checkSignatureWithCache P b (PublicKey (Details signer)) uc = (q, x)"
      by (cases "checkSignatureWithCache P b (PublicKey (Details signer)) uc")
    have "snd (verify P nc t ncp uc) = b \<or> snd (verify P nc t ncp uc) = x"
      by (simp add: verify_def bl ca Inr cs split: go.splits bool.splits option.splits)
    then show ?thesis
    proof
      assume "snd (verify P nc t ncp uc) = b"
      with assms f(2) show ?thesis by simp
    next
      assume "snd (verify P nc t ncp uc) = x"
      with assms have "signatureVerified x = Some j" by simp
      with checkSignatureWithCache_key[of P b "PublicKey (Details signer)" uc j] cs
      have "signatureVerified b = Some j \<or> j = PublicKey (Details signer)" by simp
      with f(2) Inr show ?thesis by auto
    qed
  qed
qed

lemma cache_reachable_key:
  "cache_reachable P pools c nc \<Longrightarrow> signatureVerified nc = Some j
   \<Longrightarrow> \<exists>p\<in>pools. \<exists>s. GetCAForCert p c = Inr s \<and> PublicKey (Details s) = j"
proof (induction arbitrary: j rule: cache_reachable.induct)
  case fresh
  then show ?case by (simp add: ResetCache_def)
next
  case (call nc ncp t useCache)
  from cache_reachable_ok[OF call.hyps(1)] have d: "Details nc = Details c"
    by simp
  from verify_key[OF call.prems] show ?case
  proof
    assume "signatureVerified nc = Some j"
    then show ?thesis by (rule call.IH)
  next
    assume "\<exists>s. GetCAForCert ncp nc = Inr s \<and> PublicKey (Details s) = j"
    then show ?thesis
      using call.hyps(2) GetCAForCert_cong[OF d, of ncp] by auto
  qed
qed

lemma GetCAForCert_Inr: "GetCAForCert ncp c = Inr s \<Longrightarrow> CAs ncp (Issuer (Details c)) = Some s"
  by (simp add: GetCAForCert_def split: if_splits option.splits)

text \<open>
  C4.  The pools are pools of the spec, which index every CA by its fingerprint, and
  the fingerprint identifies the CA's key.  Then in every cache state that calls of
  \<open>Verify\<close> and \<open>VerifyWithCache\<close> on the unmutated certificate reach (any times, any
  of the pools), \<open>VerifyWithCache\<close> returns the same result and error as \<open>Verify\<close>.
\<close>

theorem VerifyWithCache_eq_Verify:
  assumes "\<forall>p\<in>pools. fingerprint_indexed P p"
    and "fingerprints_identify_keys P pools"
    and "cache_reachable P pools c nc"
    and "ncp \<in> pools"
  shows "fst (VerifyWithCache P nc t ncp) = fst (Verify P nc t ncp)"
proof -
  from cache_reachable_ok[OF assms(3)] have ok: "cache_ok P nc" and d: "Details nc = Details c"
    by simp_all
  have key: "CheckSignature P nc (PublicKey (Details s)) = Returns (PublicKey (Details s) = k)"
    if c: "signatureVerified nc = Some k" and g: "GetCAForCert ncp nc = Inr s" for k s
  proof -
    from cache_reachable_key[OF assms(3) c] obtain p s' where
      p: "p \<in> pools" "GetCAForCert p c = Inr s'" "PublicKey (Details s') = k"
      by blast
    from GetCAForCert_Inr[OF p(2)] have a: "CAs p (Issuer (Details c)) = Some s'" .
    from GetCAForCert_Inr[OF g] d have b: "CAs ncp (Issuer (Details c)) = Some s"
      by simp
    from assms(1) p(1) a have "Sha256Sum P s' = Returns (Inr (Issuer (Details c)))"
      by (simp add: fingerprint_indexed_def)
    moreover from assms(1,4) b have "Sha256Sum P s = Returns (Inr (Issuer (Details c)))"
      by (simp add: fingerprint_indexed_def)
    ultimately have "Sha256Sum P s' = Sha256Sum P s" by simp
    with assms(2) p(1) assms(4) a b have "PublicKey (Details s') = PublicKey (Details s)"
      unfolding fingerprints_identify_keys_def by blast
    with p(3) have e: "PublicKey (Details s) = k" by simp
    from ok c have "CheckSignature P nc k = Returns True"
      by (simp add: cache_ok_def)
    with e show ?thesis by simp
  qed
  show ?thesis
    unfolding VerifyWithCache_def Verify_def
    by (rule verify_transparent[OF ok key])
qed

lemma ex_leaf_cached_eq:
  "ex_leaf_cached =
     ex_leaf\<lparr>sha256sum := Some ''0109'', signatureVerified := Some (replicate 32 0xAB)\<rparr>"
  by (simp add: ex_leaf_cached_def ResetCache_def cert_defs ex_defs)

lemma ex_leaf_cached_reachable:
  "cache_reachable ex_prims {ex_pool, ex_pool_b} ex_leaf ex_leaf_cached"
  unfolding ex_leaf_cached_def VerifyWithCache_def
  by (rule cache_reachable.call[OF cache_reachable.fresh]) simp

lemma Sha256Sum_ex_ca: "Sha256Sum ex_prims ex_ca = Returns (Inr ''01ab'')"
  by (simp add: cert_defs ex_defs)

lemma Sha256Sum_ex_ca_b: "Sha256Sum ex_prims ex_ca_b = Returns (Inr ''01cd'')"
  by (simp add: ex_ca_b_def cert_defs ex_defs)

lemma ex_pools_indexed: "\<forall>p\<in>{ex_pool, ex_pool_b}. fingerprint_indexed ex_prims p"
  by (auto simp: fingerprint_indexed_def ex_pool_def ex_pool_b_def
      Sha256Sum_ex_ca Sha256Sum_ex_ca_b split: if_splits)

lemma ex_pools_identify: "fingerprints_identify_keys ex_prims {ex_pool, ex_pool_b}"
  by (auto simp: fingerprints_identify_keys_def ex_pool_def ex_pool_b_def
      Sha256Sum_ex_ca Sha256Sum_ex_ca_b split: if_splits)

theorem VerifyWithCache_eq_Verify_witness:
  "fingerprint_indexed ex_prims ex_pool
   \<and> fingerprint_indexed ex_prims ex_pool_b
   \<and> fingerprints_identify_keys ex_prims {ex_pool, ex_pool_b}
   \<and> cache_reachable ex_prims {ex_pool, ex_pool_b} ex_leaf ex_leaf_cached
   \<and> signatureVerified ex_leaf_cached = Some (replicate 32 0xAB)
   \<and> fst (VerifyWithCache ex_prims ex_leaf_cached 2000000000 ex_pool_b) = Returns (True, None)
   \<and> fst (Verify ex_prims ex_leaf_cached 2000000000 ex_pool_b) = Returns (True, None)"
proof -
  have m: "ex_pool_b \<in> {ex_pool, ex_pool_b}" by simp
  have c: "signatureVerified ex_leaf_cached = Some (replicate 32 0xAB)"
    by (simp add: ex_leaf_cached_eq)
  have v: "fst (Verify ex_prims ex_leaf_cached 2000000000 ex_pool_b) = Returns (True, None)"
    by (simp add: ex_leaf_cached_eq ex_pool_b_def cert_defs ex_defs)
  from VerifyWithCache_eq_Verify[OF ex_pools_indexed ex_pools_identify ex_leaf_cached_reachable m,
      of 2000000000]
    ex_pools_indexed ex_pools_identify ex_leaf_cached_reachable c v
  show ?thesis by simp
qed

subsection \<open>Marshal and Unmarshal\<close>

lemma fromHexChar_lower:
  "c \<in> set hextable \<Longrightarrow> \<exists>v. fromHexChar c = Some v \<and> v < 16 \<and> hextable ! unat v = c"
  by (auto simp: hextable_def fromHexChar_def)

lemma nibble_bits:
  fixes a :: byte
  assumes "a < 16"
  shows "bit a n \<Longrightarrow> n < 4"
proof -
  have "a < 2 ^ 4" using assms by simp
  then have "a AND mask 4 = a" by (rule less_mask_eq)
  then have "take_bit 4 a = a" by (simp add: take_bit_eq_mask)
  then show "bit a n \<Longrightarrow> n < 4" by (metis bit_take_bit_iff)
qed

lemma nibbles:
  fixes a b :: byte
  assumes "a < 16" "b < 16"
  shows "drop_bit 4 (push_bit 4 a OR b) = a" and "(push_bit 4 a OR b) AND 15 = b"
proof -
  show "drop_bit 4 (push_bit 4 a OR b) = a"
    by (rule bit_word_eqI) (auto simp: bit_simps dest: nibble_bits[OF assms(2)] nibble_bits[OF assms(1)])
  have m: "(15 :: byte) = mask 4" by (simp add: mask_eq_exp_minus_1)
  show "(push_bit 4 a OR b) AND 15 = b"
    unfolding m
    by (rule bit_word_eqI) (auto simp: bit_simps dest: nibble_bits[OF assms(2)] nibble_bits[OF assms(1)])
qed

lemma hex_roundtrip:
  "lower_hex s \<Longrightarrow> snd (hex_DecodeString s) = False \<and> hex_EncodeToString (fst (hex_DecodeString s)) = s"
proof (induction s rule: hex_DecodeString.induct)
  case 1
  then show ?case by (simp add: hex_EncodeToString_def)
next
  case (2 p)
  then show ?case by (simp add: lower_hex_def)
next
  case (3 p q rest)
  from 3(2) have p: "p \<in> set hextable" and q: "q \<in> set hextable" and r: "lower_hex rest"
    by (auto simp: lower_hex_def)
  from fromHexChar_lower[OF p] obtain a where a: "fromHexChar p = Some a" "a < 16" "hextable ! unat a = p"
    by blast
  from fromHexChar_lower[OF q] obtain b where b: "fromHexChar q = Some b" "b < 16" "hextable ! unat b = q"
    by blast
  from 3(1)[OF a(1) b(1) r] have ih: "snd (hex_DecodeString rest) = False"
    "hex_EncodeToString (fst (hex_DecodeString rest)) = rest" by simp_all
  show ?case
    using a b ih nibbles[OF a(2) b(2)]
    by (cases "hex_DecodeString rest") (simp add: hex_EncodeToString_def)
qed


lemma int2ip_be:
  fixes a b c d :: byte
  shows "int2ip (push_bit 24 (ucast a) OR push_bit 16 (ucast b) OR push_bit 8 (ucast c) OR ucast d)
         = [a, b, c, d]"
  unfolding int2ip_def
  apply simp
  apply (intro conjI)
     apply (rule bit_word_eqI; auto simp: bit_simps dest: bit_imp_le_length)+
  done

lemma length4: "length b = 4 \<Longrightarrow> \<exists>a0 a1 a2 a3. b = [a0, a1, a2, a3]"
  by (cases b; simp; rename_tac x xs; case_tac xs; simp; rename_tac y ys; case_tac ys; simp;
      rename_tac z zs; case_tac zs; simp)

lemma ip2int_int2ip: "length b = 4 \<Longrightarrow> \<exists>w. ip2int b = Returns w \<and> int2ip w = b"
  using length4[of b] int2ip_be by (auto simp: ip2int_def BigEndian_Uint32_def)

lemma raw_nets_roundtrip:
  "\<forall>n\<in>set ns. length (IP n) = 4 \<and> length (Mask n) = 4 \<Longrightarrow>
     \<exists>r. raw_nets ns = Returns r \<and> unraw_nets r = ns \<and> even (length r)"
proof (induction ns)
  case Nil
  then show ?case by simp
next
  case (Cons n ns)
  then obtain r where r: "raw_nets ns = Returns r" "unraw_nets r = ns" "even (length r)"
    by auto
  from Cons.prems ip2int_int2ip[of "IP n"] obtain a where a: "ip2int (IP n) = Returns a" "int2ip a = IP n"
    by auto
  from Cons.prems ip2int_int2ip[of "Mask n"] obtain m where m: "ip2int (Mask n) = Returns m" "int2ip m = Mask n"
    by auto
  show ?case using r a m by simp
qed

lemma time_roundtrip:
  assumes "go_time t" and "t mod 1000000000 = 0"
  shows "time_Unix (Unix t) = t"
proof -
  define v where "v = t div 1000000000 + 62135596800"
  from assms(1) have r: "- (2 ^ 63) \<le> v" "v < 2 ^ 63"
    by (simp_all add: go_time_def v_def)
  have a: "Unix t + 62135596800 = word_of_int v"
    by (simp add: Unix_def v_def)
  have b: "sint (word_of_int v :: 64 word) = v"
    using r by (simp add: Word.sint_sbintrunc' signed_take_bit_int_eq_self)
  have "time_Unix (Unix t) = (v - 62135596800) * 1000000000"
    unfolding time_Unix_def a b ..
  with assms(2) show ?thesis
    using div_mult_mod_eq[of t 1000000000] by (simp add: v_def)
qed

text \<open>
  C3 (amended).  For a certificate with 4-byte addresses and masks, a public key of at
  least 32 bytes, a lower-case hexadecimal issuer and whole-second timestamps that are
  values of \<open>time.Time\<close>: if \<open>Marshal\<close> returns the bytes \<open>b\<close>, \<open>b\<close> is not empty and
  the protobuf library decodes \<open>b\<close> to any message it encodes as \<open>b\<close>, then
  \<open>UnmarshalNebulaCertificate b\<close> succeeds with the same \<open>Details\<close> but
  \<open>InvertedGroups\<close> rebuilt from \<open>Groups\<close>, the same \<open>Signature\<close>, \<open>Pkcs11Backed\<close>
  false and empty caches.
\<close>

theorem Unmarshal_Marshal_roundtrip:
  assumes "roundtrip_valid c"
    and "Marshal P c = Returns (Inr b)"
    and "b \<noteq> []"
    and "\<forall>rc. proto_Marshal P rc = Inr b \<longrightarrow> proto_Unmarshal P b = Inr rc"
  shows "UnmarshalNebulaCertificate P b =
     Inr (c\<lparr>Details := (Details c)\<lparr>InvertedGroups := set (Groups (Details c))\<rparr>,
            Pkcs11Backed := False, sha256sum := None, signatureVerified := None\<rparr>)"
proof -
  from assms(1) have nets: "\<forall>n\<in>set (Ips (Details c)). length (IP n) = 4 \<and> length (Mask n) = 4"
    "\<forall>n\<in>set (Subnets (Details c)). length (IP n) = 4 \<and> length (Mask n) = 4"
    and pk: "\<not> length (PublicKey (Details c)) < publicKeyLen"
    and hx: "lower_hex (Issuer (Details c))"
    and tb: "go_time (NotBefore (Details c))" "NotBefore (Details c) mod 1000000000 = 0"
    and ta: "go_time (NotAfter (Details c))" "NotAfter (Details c) mod 1000000000 = 0"
    by (auto simp: roundtrip_valid_def)
  from raw_nets_roundtrip[OF nets(1)] obtain ri where
    ri: "raw_nets (Ips (Details c)) = Returns ri" "unraw_nets ri = Ips (Details c)" "even (length ri)"
    by blast
  from raw_nets_roundtrip[OF nets(2)] obtain rs where
    rs: "raw_nets (Subnets (Details c)) = Returns rs" "unraw_nets rs = Subnets (Details c)" "even (length rs)"
    by blast
  note h = hex_roundtrip[OF hx]
  note t = time_roundtrip[OF tb] time_roundtrip[OF ta]
  define rd where "rd =
      \<lparr>Raw_Name = Name (Details c), Raw_Ips = ri, Raw_Subnets = rs,
       Raw_Groups = Groups (Details c),
       Raw_NotBefore = Unix (NotBefore (Details c)),
       Raw_NotAfter = Unix (NotAfter (Details c)),
       Raw_PublicKey = PublicKey (Details c),
       Raw_IsCA = IsCA (Details c),
       Raw_Issuer = fst (hex_DecodeString (Issuer (Details c))),
       Raw_Curve = Curve (Details c)\<rparr>"
  have g: "getRawDetails c = Returns rd"
    by (simp add: getRawDetails_def ri rs rd_def)
  from assms(2) have "proto_Marshal P \<lparr>Raw_Details = Some rd, Raw_Signature = Signature c\<rparr> = Inr b"
    by (simp add: Marshal_def g split: sum.splits)
  with assms(4) have d: "proto_Unmarshal P b = Inr \<lparr>Raw_Details = Some rd, Raw_Signature = Signature c\<rparr>"
    by blast
  have u: "UnmarshalNebulaCertificate P b =
     Inr \<lparr>Details =
            \<lparr>Name = Name (Details c), Ips = Ips (Details c), Subnets = Subnets (Details c),
             Groups = Groups (Details c), NotBefore = NotBefore (Details c),
             NotAfter = NotAfter (Details c), PublicKey = PublicKey (Details c),
             IsCA = IsCA (Details c), Issuer = Issuer (Details c),
             InvertedGroups = set (Groups (Details c)), Curve = Curve (Details c)\<rparr>,
          Pkcs11Backed = False, Signature = Signature c,
          sha256sum = None, signatureVerified = None\<rparr>"
    using assms(3) ri(3) rs(3) pk
    by (simp add: UnmarshalNebulaCertificate_def d rd_def ri(2) rs(2) h t)
  show ?thesis
    unfolding u by (cases c; cases "Details c") simp
qed

lemma Marshal_ex_leaf: "Marshal ex_codec ex_leaf = Returns (Inr [1])"
  by (simp add: ex_codec_def ex_raw_def cert_defs ex_defs)

lemma ex_codec_law: "\<forall>rc. proto_Marshal ex_codec rc = Inr [1] \<longrightarrow> proto_Unmarshal ex_codec [1] = Inr rc"
  by (simp add: ex_codec_def)

theorem Unmarshal_Marshal_roundtrip_witness:
  "roundtrip_valid ex_leaf
   \<and> Marshal ex_codec ex_leaf = Returns (Inr [1])
   \<and> proto_Marshal ex_codec ex_raw = Inr [1]
   \<and> proto_Unmarshal ex_codec [1] = Inr ex_raw
   \<and> UnmarshalNebulaCertificate ex_codec [1] = Inr ex_leaf"
proof -
  have v: "roundtrip_valid ex_leaf"
    by (simp add: roundtrip_valid_def go_time_def lower_hex_def hextable_def publicKeyLen_def ex_defs)
  have n: "[1 :: byte] \<noteq> []" by simp
  have c: "proto_Marshal ex_codec ex_raw = Inr [1]" "proto_Unmarshal ex_codec [1] = Inr ex_raw"
    by (simp_all add: ex_codec_def)
  have e: "ex_leaf\<lparr>Details := (Details ex_leaf)\<lparr>InvertedGroups := set (Groups (Details ex_leaf))\<rparr>,
            Pkcs11Backed := False, sha256sum := None, signatureVerified := None\<rparr> = ex_leaf"
    by (simp add: ex_defs)
  from Unmarshal_Marshal_roundtrip[OF v Marshal_ex_leaf n ex_codec_law] v Marshal_ex_leaf c
  show ?thesis
    unfolding e by simp
qed

text \<open>
  C3 as stated fails for an issuer that is hex-decodable but written in upper case: the
  certificate is valid in the claim's sense, \<open>Marshal\<close> returns bytes that the protobuf
  library decodes to the message it encoded, and the issuer comes back in lower case.
\<close>

theorem Unmarshal_Marshal_uppercase_counterexample:
  "hex_DecodeString (Issuer (Details ex_upper)) = ([0x01, 0xAB], False)
   \<and> length (PublicKey (Details ex_upper)) = 32
   \<and> map (\<lambda>n. (length (IP n), length (Mask n))) (Ips (Details ex_upper) @ Subnets (Details ex_upper)) = [(4, 4)]
   \<and> NotBefore (Details ex_upper) = 2 * 1000000000
   \<and> NotAfter (Details ex_upper) = 8 * 1000000000
   \<and> Marshal ex_codec ex_upper = Returns (Inr [1])
   \<and> proto_Marshal ex_codec ex_raw = Inr [1]
   \<and> proto_Unmarshal ex_codec [1] = Inr ex_raw
   \<and> UnmarshalNebulaCertificate ex_codec [1] = Inr ex_leaf
   \<and> Issuer (Details ex_leaf) = ''01ab''
   \<and> Issuer (Details ex_upper) = ''01AB''"
proof -
  have 1: "hex_DecodeString (Issuer (Details ex_upper)) = ([0x01, 0xAB], False)"
    by (simp add: ex_upper_def ex_defs fromHexChar_def)
  have 2: "length (PublicKey (Details ex_upper)) = 32"
    by (simp add: ex_upper_def ex_defs)
  have 3: "map (\<lambda>n. (length (IP n), length (Mask n))) (Ips (Details ex_upper) @ Subnets (Details ex_upper)) = [(4, 4)]"
    by (simp add: ex_upper_def ex_defs)
  have 4: "NotBefore (Details ex_upper) = 2 * 1000000000" "NotAfter (Details ex_upper) = 8 * 1000000000"
    by (simp_all add: ex_upper_def ex_defs)
  have 5: "Marshal ex_codec ex_upper = Returns (Inr [1])"
    by (simp add: ex_codec_def ex_raw_def ex_upper_def cert_defs ex_defs)
  have 6: "proto_Marshal ex_codec ex_raw = Inr [1]" "proto_Unmarshal ex_codec [1] = Inr ex_raw"
    by (simp_all add: ex_codec_def)
  have 7: "UnmarshalNebulaCertificate ex_codec [1] = Inr ex_leaf"
    by (simp add: UnmarshalNebulaCertificate_def ex_codec_def ex_raw_def ex_defs publicKeyLen_def
        int2ip_def time_Unix_def hex_EncodeToString_def hextable_def Curve_CURVE25519_def)
  have 8: "Issuer (Details ex_leaf) = ''01ab''" by (simp add: ex_defs)
  have 9: "Issuer (Details ex_upper) = ''01AB''" by (simp add: ex_upper_def)
  from 1 2 3 4 5 6 7 8 9 show ?thesis by blast
qed

subsection \<open>Sign\<close>

lemma Sign_curve_mismatch:
  "curve \<noteq> Curve (Details nc) \<Longrightarrow> Sign P nc curve key = (Returns (Some ErrCurveMismatch), nc)"
  by (simp add: Sign_def)

lemma Sign_invalid_curve:
  assumes "Curve (Details nc) \<noteq> Curve_CURVE25519" and "Curve (Details nc) \<noteq> Curve_P256"
    and "getRawDetails nc = Returns rd" and "proto_Marshal_Details P rd = Inr b"
  shows "Sign P nc (Curve (Details nc)) key = (Returns (Some (ErrInvalidCurve (Curve (Details nc)))), nc)"
  using assms by (simp add: Sign_def)

lemma Sign_Curve25519_key_length:
  assumes "Curve (Details nc) = Curve_CURVE25519"
    and "getRawDetails nc = Returns rd" and "proto_Marshal_Details P rd = Inr b"
    and "length key \<noteq> 64"
  shows "Sign P nc Curve_CURVE25519 key = (Panics, nc)"
  using assms by (simp add: Sign_def ed25519_Sign_def)

text \<open>
  C7.  \<open>Sign\<close> of a Curve25519 certificate with a 32-byte key (not an Ed25519 private
  key, which has 64 bytes) panics: \<open>Sign\<close> passes the key to \<open>ed25519.Sign\<close> without
  checking its length.
\<close>

theorem Sign_short_key_panics:
  "Sign ex_prims ex_ca Curve_CURVE25519 (replicate 32 1) = (Panics, ex_ca)"
  by (simp add: Sign_def ed25519_Sign_def cert_defs ex_defs)

section \<open>Properties of the handshake manager\<close>

lemma CheckAndComplete_success_installs:
  assumes "fst (CheckAndComplete hostinfo handshakePacket overwrite s) = Returns (r, None)"
  shows "Hosts (mainHostMap (snd (CheckAndComplete hostinfo handshakePacket overwrite s)))
           (vpnIp (heap s hostinfo)) = Some hostinfo"
  using assms
  by (auto simp: CheckAndComplete_def Let_def addHostInfo_def unlockedDeleteHostInfo_def
      split: option.splits if_splits go.splits sum.splits)

text \<open>
  C2.  Whenever \<open>CheckAndComplete\<close> returns an error (\<open>AlreadySeen\<close>,
  \<open>ExistingHostInfo\<close>, \<open>LocalIndexCollision\<close> or \<open>ExistingHandshake\<close>), the state
  after the call is the state before it: both host maps and every HostInfo, packet
  stores included.
\<close>

theorem CheckAndComplete_error_keeps_state:
  "fst (CheckAndComplete hostinfo handshakePacket overwrite s) = Returns (r, Some e)
   \<Longrightarrow> snd (CheckAndComplete hostinfo handshakePacket overwrite s) = s"
  by (auto simp: CheckAndComplete_def Let_def split: option.splits if_splits go.splits sum.splits)

text \<open>
  C5 (amended).  For a pending HostInfo that is neither complete nor handshake-ready,
  \<open>handleOutbound\<close> returns, sends nothing, leaves every HostInfo as it is and gives
  the wheel one new entry, with delay \<open>tryInterval * HandshakeCounter\<close>.
\<close>

theorem handleOutbound_not_ready:
  assumes "Hosts (pendingHostMap s) ip = Some h"
    and "\<not> HandshakeComplete (heap s h)"
    and "\<not> HandshakeReady (heap s h)"
  shows "handleOutbound E ip lighthouseTriggered s =
     (Returns (),
      s\<lparr>OutboundHandshakeTimer :=
          OutboundHandshakeTimer s @ [(ip, tryInterval E * HandshakeCounter (heap s h))]\<rparr>)"
  using assms by (simp add: handleOutbound_def timer_Add_def)

lemma send_all_sent:
  "2 \<le> length pkt \<Longrightarrow>
     send_all pkt as s =
       (Returns (), s\<lparr>sent := sent s @ concat (map (\<lambda>a. [MessageTx (pkt ! 1), WriteTo pkt a]) as)\<rparr>)"
  by (induction as arbitrary: s) (simp_all add: emit_def)

lemma relay_frame_refl: "relay_frame s s"
  by (simp add: relay_frame_def)

lemma relay_frame_trans: "relay_frame a b \<Longrightarrow> relay_frame b c \<Longrightarrow> relay_frame a c"
  by (auto simp: relay_frame_def)

lemma relay_frame_emit: "\<not> is_WriteTo a \<Longrightarrow> relay_frame s (emit a s)"
  by (simp add: relay_frame_def emit_def)

lemma relay_frame_send_CreateRelayRequest:
  "relay_frame s (send_CreateRelayRequest E idx ip relay s)"
  by (auto simp: send_CreateRelayRequest_def relay_frame_refl is_WriteTo_def
      intro: relay_frame_emit split: sum.splits)

lemma relay_frame_AddRelay: "relay_frame s (snd (AddRelay E rh ip s))"
  by (auto simp: AddRelay_def relay_frame_def split: option.splits)

lemma relay_frame_step: "relay_frame s (relay_step E ip h relay s)"
proof -
  have a: "relay_frame s (send_CreateRelayRequest E (fst (AddRelay E rh ip s)) ip relay (snd (AddRelay E rh ip s)))" for rh
    by (rule relay_frame_trans[OF relay_frame_AddRelay relay_frame_send_CreateRelayRequest])
  show ?thesis
    using a
    by (auto simp: relay_step_def relay_frame_refl is_WriteTo_def case_prod_beta
        intro: relay_frame_emit relay_frame_send_CreateRelayRequest
        split: option.splits relay_state.splits)
qed

lemma relay_frame_loop: "relay_frame s (relay_loop E ip h rs s)"
proof (induction rs arbitrary: s)
  case Nil
  show ?case by (simp add: relay_frame_refl)
next
  case (Cons r rs)
  show ?case
    using relay_frame_trans[OF relay_frame_step Cons.IH] by simp
qed


lemma filter_WriteTo_send:
  "filter is_WriteTo (concat (map (\<lambda>a. [MessageTx b, WriteTo pkt a]) as)) = map (WriteTo pkt) as"
  by (induction as) (simp_all add: is_WriteTo_def)

lemma handleOutbound_first_transmit:
  assumes p: "Hosts (pendingHostMap s) ip = Some h"
    and nc: "\<not> HandshakeComplete (heap s h)" and rd: "HandshakeReady (heap s h)"
    and lt: "HandshakeCounter (heap s h) <s retries E"
    and z: "HandshakeCounter (heap s h) = 0"
    and len: "2 \<le> length (HandshakePacket (heap s h) 0)"
  shows "fst (handleOutbound E ip True s) = Returns ()
     \<and> (\<exists>new. sent (snd (handleOutbound E ip True s)) = sent s @ new
            \<and> filter is_WriteTo new
                = map (WriteTo (HandshakePacket (heap s h) 0)) (addrs (known_remotes E ip (heap s h))))
     \<and> HandshakeCounter (heap (snd (handleOutbound E ip True s)) h) = 1
     \<and> OutboundHandshakeTimer (snd (handleOutbound E ip True s)) = OutboundHandshakeTimer s"
proof -
  define pkt where "pkt = HandshakePacket (heap s h) 0"
  define rl where "rl = known_remotes E ip (heap s h)"
  define s1 where "s1 = ensure_remotes E ip h s"
  define s2 where "s2 = (if length (addrs rl) \<le> 1 then emit (QueryServer ip) s1 else s1)"
  define s3 where "s3 = s2\<lparr>sent := sent s2 @ concat (map (\<lambda>a. [MessageTx (pkt ! 1), WriteTo pkt a]) (addrs rl))\<rparr>"
  define s4 where "s4 = (if useRelays E then relay_loop E ip h (relays rl) s3 else s3)"
  define s5 where "s5 = finish_attempt E ip h True s4"
  have g3: "\<not> retries E \<le>s HandshakeCounter (heap s h)"
    using lt by (simp add: word_sle_eq word_sless_alt)
  have g4: "\<not> 0 <s HandshakeCounter (heap s h)"
    using z by (simp add: word_sless_alt)
  have s1f: "sent s1 = sent s" "OutboundHandshakeTimer s1 = OutboundHandshakeTimer s"
    "HandshakeCounter (heap s1 h) = 0" "HandshakePacket (heap s1 h) 0 = pkt"
    using z by (auto simp: s1_def ensure_remotes_def pkt_def split: option.splits)
  have s2f: "\<exists>q. sent s2 = sent s @ q \<and> filter is_WriteTo q = []"
    "OutboundHandshakeTimer s2 = OutboundHandshakeTimer s"
    "HandshakeCounter (heap s2 h) = 0" "HandshakePacket (heap s2 h) 0 = pkt"
    using s1f by (auto simp: s2_def emit_def is_WriteTo_def)
  have sa: "send_all (HandshakePacket (heap s2 h) 0) (addrs rl) s2 = (Returns (), s3)"
    unfolding s2f(4) s3_def using len send_all_sent[of pkt "addrs rl" s2] by (simp add: pkt_def)
  from s2f(1) obtain q where q: "sent s2 = sent s @ q" "filter is_WriteTo q = []"
    by blast
  have s3f: "sent s3 = sent s @ (q @ concat (map (\<lambda>a. [MessageTx (pkt ! 1), WriteTo pkt a]) (addrs rl)))"
    "OutboundHandshakeTimer s3 = OutboundHandshakeTimer s"
    "HandshakeCounter (heap s3 h) = 0"
    using q s2f by (simp_all add: s3_def)
  have fr: "relay_frame s3 s4"
    by (simp add: s4_def relay_frame_refl relay_frame_loop)
  then obtain w where w: "sent s4 = sent s3 @ w" "filter is_WriteTo w = []"
    by (auto simp: relay_frame_def)
  have s4f: "OutboundHandshakeTimer s4 = OutboundHandshakeTimer s" "HandshakeCounter (heap s4 h) = 0"
    using fr s3f by (auto simp: relay_frame_def)
  have s5f: "sent s5 = sent s @ (q @ concat (map (\<lambda>a. [MessageTx (pkt ! 1), WriteTo pkt a]) (addrs rl)) @ w)"
    "OutboundHandshakeTimer s5 = OutboundHandshakeTimer s" "HandshakeCounter (heap s5 h) = 1"
    using w s3f s4f by (simp_all add: s5_def finish_attempt_def)
  have fw: "filter is_WriteTo (q @ concat (map (\<lambda>a. [MessageTx (pkt ! 1), WriteTo pkt a]) (addrs rl)) @ w)
            = map (WriteTo pkt) (addrs rl)"
    using q(2) w(2) by (simp add: filter_WriteTo_send)
  have "handleOutbound E ip True s =
      (let s1 = ensure_remotes E ip h s;
           rl = known_remotes E ip (heap s h);
           s2 = (if length (addrs rl) \<le> 1 then emit (QueryServer ip) s1 else s1)
       in case send_all (HandshakePacket (heap s2 h) 0) (addrs rl) s2 of
            (Panics, s3) \<Rightarrow> (Panics, s3)
          | (Returns u, s3) \<Rightarrow>
              (Returns (),
               finish_attempt E ip h True
                 (if useRelays E then relay_loop E ip h (relays rl) s3 else s3)))"
    using p nc rd g3 g4 by (simp add: handleOutbound_def)
  also have "\<dots> = (Returns (), s5)"
    unfolding Let_def s1_def[symmetric] rl_def[symmetric] s2_def[symmetric] sa
    by (simp add: s5_def s4_def)
  finally have h: "handleOutbound E ip True s = (Returns (), s5)" .
  show ?thesis
    unfolding h using s5f fw by (auto simp: pkt_def rl_def)
qed

text \<open>
  C8.  For a pending HostInfo that is handshake-ready, not complete and not timed out,
  a lighthouse-triggered \<open>handleOutbound\<close> with a positive counter changes nothing.
  With counter zero (and a \<open>HandshakePacket[0]\<close> that holds its header) it returns,
  writes \<open>HandshakePacket[0]\<close> to each known remote, in order and to nothing else, sets
  the counter to 1 and adds no wheel entry.
\<close>

theorem handleOutbound_lighthouse_triggered:
  assumes "Hosts (pendingHostMap s) ip = Some h"
    and "\<not> HandshakeComplete (heap s h)" and "HandshakeReady (heap s h)"
    and "HandshakeCounter (heap s h) <s retries E"
  shows "(0 <s HandshakeCounter (heap s h) \<longrightarrow> handleOutbound E ip True s = (Returns (), s))
     \<and> (HandshakeCounter (heap s h) = 0 \<and> 2 \<le> length (HandshakePacket (heap s h) 0) \<longrightarrow>
          fst (handleOutbound E ip True s) = Returns ()
          \<and> (\<exists>new. sent (snd (handleOutbound E ip True s)) = sent s @ new
                 \<and> filter is_WriteTo new
                     = map (WriteTo (HandshakePacket (heap s h) 0))
                         (addrs (known_remotes E ip (heap s h))))
          \<and> HandshakeCounter (heap (snd (handleOutbound E ip True s)) h) = 1
          \<and> OutboundHandshakeTimer (snd (handleOutbound E ip True s)) = OutboundHandshakeTimer s)"
proof -
  have g3: "\<not> retries E \<le>s HandshakeCounter (heap s h)"
    using assms(4) by (simp add: word_sle_eq word_sless_alt)
  have 1: "handleOutbound E ip True s = (Returns (), s)" if "0 <s HandshakeCounter (heap s h)"
    using assms(1-3) g3 that by (simp add: handleOutbound_def)
  show ?thesis
    using 1 handleOutbound_first_transmit[OF assms] by blast
qed


lemmas hs_defs = handleOutbound_def ensure_remotes_def known_remotes_def emit_def timer_Add_def
  finish_attempt_def relay_step_def AddRelay_def send_CreateRelayRequest_def
  unlockedDeleteHostInfo_def addHostInfo_def CheckAndComplete_def
  ex_env_def ex_host_def ex_state_def word_sle_eq word_sless_alt

theorem CheckAndComplete_error_keeps_state_witness:
  "fst (CheckAndComplete 2 0 False (ex_state ex_host)) = Returns (Some 1, Some ErrExistingHandshake)
   \<and> snd (CheckAndComplete 2 0 False (ex_state ex_host)) = ex_state ex_host"
proof -
  have a: "fst (CheckAndComplete 2 0 False (ex_state ex_host)) = Returns (Some 1, Some ErrExistingHandshake)"
    by (simp add: hs_defs)
  from CheckAndComplete_error_keeps_state[OF a] a show ?thesis by simp
qed

theorem handleOutbound_not_ready_witness:
  "handleOutbound ex_env 0x0A000002 False (ex_state (ex_host\<lparr>HandshakeCounter := 2\<rparr>)) =
     (Returns (), (ex_state (ex_host\<lparr>HandshakeCounter := 2\<rparr>))
                    \<lparr>OutboundHandshakeTimer := [(0x0A000002, 200000000)]\<rparr>)"
proof -
  let ?s = "ex_state (ex_host\<lparr>HandshakeCounter := 2\<rparr>)"
  have 1: "Hosts (pendingHostMap ?s) 0x0A000002 = Some 1" by (simp add: hs_defs)
  have 2: "\<not> HandshakeComplete (heap ?s 1)" by (simp add: hs_defs)
  have 3: "\<not> HandshakeReady (heap ?s 1)" by (simp add: hs_defs)
  have 4: "OutboundHandshakeTimer ?s @ [(0x0A000002, tryInterval ex_env * HandshakeCounter (heap ?s 1))]
           = [(0x0A000002, 200000000)]"
    by (simp add: hs_defs)
  from handleOutbound_not_ready[OF 1 2 3, of ex_env False] show ?thesis
    unfolding 4 .
qed

text \<open>
  C5 as stated fails at counter zero: the delay handed to the wheel is 0, not the
  100 ms of \<open>tryInterval\<close>.
\<close>

theorem handleOutbound_not_ready_zero_counterexample:
  "Hosts (pendingHostMap (ex_state ex_host)) 0x0A000002 = Some 1
   \<and> \<not> HandshakeReady (heap (ex_state ex_host) 1)
   \<and> HandshakeCounter (heap (ex_state ex_host) 1) = 0
   \<and> tryInterval ex_env = 100000000
   \<and> OutboundHandshakeTimer (snd (handleOutbound ex_env 0x0A000002 False (ex_state ex_host)))
       = [(0x0A000002, 0)]"
  by (simp add: hs_defs)

theorem handleOutbound_lighthouse_triggered_witness:
  "handleOutbound ex_env 0x0A000002 True
       (ex_state (ex_host\<lparr>HandshakeReady := True, HandshakeCounter := 1\<rparr>))
     = (Returns (), ex_state (ex_host\<lparr>HandshakeReady := True, HandshakeCounter := 1\<rparr>))
   \<and> fst (handleOutbound ex_env 0x0A000002 True (ex_state (ex_host\<lparr>HandshakeReady := True\<rparr>)))
       = Returns ()
   \<and> sent (snd (handleOutbound ex_env 0x0A000002 True (ex_state (ex_host\<lparr>HandshakeReady := True\<rparr>))))
       = [QueryServer 0x0A000002, MessageTx 0,
          WriteTo [1, 0, 0, 0] \<lparr>addr_IP = [192, 0, 2, 1], addr_Port = 4242\<rparr>]
   \<and> HandshakeCounter
         (heap (snd (handleOutbound ex_env 0x0A000002 True (ex_state (ex_host\<lparr>HandshakeReady := True\<rparr>)))) 1)
       = 1
   \<and> OutboundHandshakeTimer
         (snd (handleOutbound ex_env 0x0A000002 True (ex_state (ex_host\<lparr>HandshakeReady := True\<rparr>))))
       = []"
proof -
  let ?a = "ex_state (ex_host\<lparr>HandshakeReady := True, HandshakeCounter := 1\<rparr>)"
  let ?b = "ex_state (ex_host\<lparr>HandshakeReady := True\<rparr>)"
  have a: "Hosts (pendingHostMap ?a) 0x0A000002 = Some 1" "\<not> HandshakeComplete (heap ?a 1)"
    "HandshakeReady (heap ?a 1)" "HandshakeCounter (heap ?a 1) <s retries ex_env"
    "0 <s HandshakeCounter (heap ?a 1)"
    by (simp_all add: hs_defs)
  have b: "Hosts (pendingHostMap ?b) 0x0A000002 = Some 1" "\<not> HandshakeComplete (heap ?b 1)"
    "HandshakeReady (heap ?b 1)" "HandshakeCounter (heap ?b 1) <s retries ex_env"
    "HandshakeCounter (heap ?b 1) = 0" "2 \<le> length (HandshakePacket (heap ?b 1) 0)"
    by (simp_all add: hs_defs)
  have c: "sent (snd (handleOutbound ex_env 0x0A000002 True ?b))
       = [QueryServer 0x0A000002, MessageTx 0,
          WriteTo [1, 0, 0, 0] \<lparr>addr_IP = [192, 0, 2, 1], addr_Port = 4242\<rparr>]"
    by (simp add: hs_defs)
  have d: "OutboundHandshakeTimer ?b = []" by (simp add: hs_defs)
  from handleOutbound_lighthouse_triggered[OF a(1-4)] a(5)
    handleOutbound_lighthouse_triggered[OF b(1-4)] b(5,6) c d
  show ?thesis by simp
qed

text \<open>
  C6.  With three retries at 100 ms the horizon of the linear backoff is
  \<open>100 ms \<cdot> (1 + 2 + 3)\<close> = 600 ms; \<open>hsTimeout\<close> is 400 ms.
\<close>

theorem hsTimeout_three_tries:
  "sint (hsTimeout 3 100000000) = 400000000
   \<and> sint (hsTimeout 3 100000000) < 100000000 * (1 + 2 + 3)"
  by (simp add: hsTimeout_def go_div_def signed_divide_int_def)

lemma hsTimeout_one_try: "hsTimeout 1 interval = 0"
  by (simp add: hsTimeout_def go_div_def signed_divide_int_def)

end
